theory Spec2Isabelle
  imports Main "HOL-Library.Word" "HOL-Library.Sublist" "HOL-Library.State_Monad"
begin

unbundle bit_operations_syntax

section \<open>Data model\<close>

text \<open>
  A JavaScript string is a sequence of UTF-16 code units. Text that is plain ASCII is
  written with \<open>ascii\<close>; Korean text is written by its code units.
\<close>

type_synonym jsstring = "16 word list"

definition ascii :: "string \<Rightarrow> jsstring" where
  "ascii s = map of_char s"

text \<open>
  Modelled from the spec: the declarations of \<open>Stock\<close>, \<open>Industry\<close> and
  \<open>ReportListItem\<close> live in \<open>@/lib/api/reports\<close>, which is not among the sources.
  The records carry the fields the components read; the field \<open>id\<close> is \<open>stock_id\<close> in a
  stock and \<open>industry_id\<close> in an industry. A field that may be \<open>null\<close> or
  \<open>undefined\<close> is an option.
\<close>

record stock =
  stock_id :: int
  stock_code :: jsstring
  stock_name :: jsstring

record industry =
  industry_id :: int
  industry_name :: "jsstring option"
  impact_description :: "jsstring option"
  stocks :: "stock list"

section \<open>Array operations of the platform\<close>

definition flatMap :: "('a \<Rightarrow> 'b list) \<Rightarrow> 'a list \<Rightarrow> 'b list" where
  "flatMap f xs = concat (map f xs)"

text \<open>\<open>findIndex\<close> scans from index 0 and returns \<open>-1\<close> when no element satisfies the test.\<close>

fun findIndexFrom :: "('a \<Rightarrow> bool) \<Rightarrow> int \<Rightarrow> 'a list \<Rightarrow> int" where
  "findIndexFrom p k [] = - 1"
| "findIndexFrom p k (x # xs) = (if p x then k else findIndexFrom p (k + 1) xs)"

definition findIndex :: "('a \<Rightarrow> bool) \<Rightarrow> 'a list \<Rightarrow> int" where
  "findIndex p xs = findIndexFrom p 0 xs"

text \<open>\<open>Array.prototype.filter\<close> with the three-argument callback (element, index, array).\<close>

fun filterFrom :: "('a \<Rightarrow> int \<Rightarrow> 'a list \<Rightarrow> bool) \<Rightarrow> 'a list \<Rightarrow> int \<Rightarrow> 'a list \<Rightarrow> 'a list" where
  "filterFrom p self k [] = []"
| "filterFrom p self k (x # xs) =
     (if p x k self then x # filterFrom p self (k + 1) xs else filterFrom p self (k + 1) xs)"

definition filter_indexed :: "('a \<Rightarrow> int \<Rightarrow> 'a list \<Rightarrow> bool) \<Rightarrow> 'a list \<Rightarrow> 'a list" where
  "filter_indexed p xs = filterFrom p xs 0 xs"

section \<open>RecommendedStocksSidebar\<close>

definition allStocks :: "industry list \<Rightarrow> stock list" where
  "allStocks industries = flatMap (\<lambda>industry. stocks industry) industries"

definition uniqueStocks :: "stock list \<Rightarrow> stock list" where
  "uniqueStocks all =
     filter_indexed (\<lambda>stock index self. index = findIndex (\<lambda>s. stock_id s = stock_id stock) self) all"

text \<open>
  What the component returns: \<open>None\<close> is \<open>null\<close> (nothing is rendered), otherwise the
  stock cards of the sidebar in their order, one per entry of \<open>uniqueStocks\<close>.
\<close>

datatype sidebar = Sidebar (stock_cards: "stock list")

definition RecommendedStocksSidebar :: "industry list \<Rightarrow> sidebar option" where
  "RecommendedStocksSidebar industries =
     (let unique = uniqueStocks (allStocks industries)
      in if length unique = 0 then None else Some (Sidebar unique))"

section \<open>ImpactedIndustriesGrid\<close>

text \<open>
  JavaScript truthiness of a value of type \<open>string | null | undefined\<close>: \<open>null\<close>,
  \<open>undefined\<close> and the empty string are falsy.
\<close>

definition truthy :: "jsstring option \<Rightarrow> bool" where
  "truthy v = (case v of None \<Rightarrow> False | Some s \<Rightarrow> s \<noteq> [])"

text \<open>
  One cell per industry: its key, the name put into the heading as it is, and the
  description paragraph, which is present only for a truthy \<open>impact_description\<close>.
\<close>

datatype grid_cell =
  GridCell (cell_key: int) (cell_name: "jsstring option") (cell_description: "jsstring option")

datatype grid = Grid (grid_cells: "grid_cell list")

definition ImpactedIndustriesGrid :: "industry list \<Rightarrow> grid option" where
  "ImpactedIndustriesGrid industries =
     (if length industries = 0 then None
      else Some (Grid (map (\<lambda>industry.
             GridCell (industry_id industry) (industry_name industry)
               (if truthy (impact_description industry) then impact_description industry else None))
             industries)))"

section \<open>String operations of the platform\<close>

text \<open>\<open>s.includes(search)\<close>: \<open>search\<close> occurs in \<open>s\<close> at some position.\<close>

fun js_includes :: "jsstring \<Rightarrow> jsstring \<Rightarrow> bool" where
  "js_includes [] search = (search = [])"
| "js_includes (c # cs) search = (prefix search (c # cs) \<or> js_includes cs search)"

text \<open>
  \<open>Array.prototype.slice(start, end)\<close>: negative arguments count from the end, and both
  are clamped to the array.
\<close>

definition slice :: "int \<Rightarrow> int \<Rightarrow> 'a list \<Rightarrow> 'a list" where
  "slice start end xs =
     (let len = int (length xs);
          k = (if start < 0 then max (len + start) 0 else min start len);
          final = (if end < 0 then max (len + end) 0 else min end len)
      in take (nat (max (final - k) 0)) (drop (nat k) xs))"

text \<open>\<open>Array.prototype.map\<close> with the two-argument callback (element, index).\<close>

fun mapFrom :: "('a \<Rightarrow> int \<Rightarrow> 'b) \<Rightarrow> int \<Rightarrow> 'a list \<Rightarrow> 'b list" where
  "mapFrom f k [] = []"
| "mapFrom f k (x # xs) = f x k # mapFrom f (k + 1) xs"

definition map_indexed :: "('a \<Rightarrow> int \<Rightarrow> 'b) \<Rightarrow> 'a list \<Rightarrow> 'b list" where
  "map_indexed f xs = mapFrom f 0 xs"

section \<open>ReportCard: category colours\<close>

text \<open>The keywords of the rules, as UTF-16 code units.\<close>

definition kw_semiconductor :: jsstring where
  "kw_semiconductor = [0xBC18, 0xB3C4, 0xCCB4]"

definition kw_battery :: jsstring where
  "kw_battery = [0x32, 0xCC28, 0xC804, 0xC9C0]"

definition kw_finance :: jsstring where
  "kw_finance = [0xAE08, 0xC735]"

definition kw_game :: jsstring where
  "kw_game = [0xAC8C, 0xC784]"

text \<open>
  \<open>String.prototype.toLowerCase\<close> maps a string by the Unicode case tables of the
  platform, which are not part of the sources: the function is a parameter of the model.
\<close>

definition getCategoryColor :: "(jsstring \<Rightarrow> jsstring) \<Rightarrow> jsstring option \<Rightarrow> string" where
  "getCategoryColor toLowerCase category =
     (case category of
        None \<Rightarrow> ''bg-slate-100 text-slate-700''
      | Some c \<Rightarrow>
          if c = [] then ''bg-slate-100 text-slate-700''
          else
            let categoryLower = toLowerCase c
            in if js_includes categoryLower kw_semiconductor \<or> js_includes categoryLower kw_battery
               then ''bg-green-100 text-green-700''
               else if js_includes categoryLower kw_finance then ''bg-orange-100 text-orange-700''
               else if js_includes categoryLower kw_game then ''bg-red-100 text-red-700''
               else ''bg-slate-100 text-slate-700'')"

text \<open>
  The classification as the specification words it: an ordered list of rules, each a list
  of keywords and a bucket; a keyword matches when the lower-cased candidate contains the
  lower-cased keyword; the first rule with a matching keyword decides; a missing or empty
  candidate, and a candidate no rule matches, are neutral.
\<close>

datatype bucket = Green | Orange | Red | Slate

definition bucket_class :: "bucket \<Rightarrow> string" where
  "bucket_class b =
     (case b of
        Green \<Rightarrow> ''bg-green-100 text-green-700''
      | Orange \<Rightarrow> ''bg-orange-100 text-orange-700''
      | Red \<Rightarrow> ''bg-red-100 text-red-700''
      | Slate \<Rightarrow> ''bg-slate-100 text-slate-700'')"

definition category_rules :: "(jsstring list \<times> bucket) list" where
  "category_rules =
     [([kw_semiconductor, kw_battery], Green), ([kw_finance], Orange), ([kw_game], Red)]"

definition contains_ci :: "(jsstring \<Rightarrow> jsstring) \<Rightarrow> jsstring \<Rightarrow> jsstring \<Rightarrow> bool" where
  "contains_ci lower s kw = sublist (lower kw) (lower s)"

fun first_match :: "(jsstring \<Rightarrow> jsstring) \<Rightarrow> jsstring \<Rightarrow> (jsstring list \<times> bucket) list \<Rightarrow> bucket" where
  "first_match lower s [] = Slate"
| "first_match lower s ((kws, b) # rules) =
     (if list_ex (contains_ci lower s) kws then b else first_match lower s rules)"

definition classify_spec :: "(jsstring \<Rightarrow> jsstring) \<Rightarrow> jsstring option \<Rightarrow> bucket" where
  "classify_spec lower category =
     (case category of
        None \<Rightarrow> Slate
      | Some s \<Rightarrow> if s = [] then Slate else first_match lower s category_rules)"

text \<open>Lower-casing of the letters A to Z only, every other code unit kept.\<close>

definition lower_ascii :: "jsstring \<Rightarrow> jsstring" where
  "lower_ascii s = map (\<lambda>c. if 0x41 \<le> c \<and> c \<le> 0x5A then c + 0x20 else c) s"

section \<open>ReportCard: summary text\<close>

text \<open>
  The regular expression \<open>/<[^>]*>/\<close> tried at a \<open><\<close>: \<open>tag_end\<close> reads the code units
  after the \<open><\<close> up to the first \<open>>\<close> and returns what follows it; there is no match when
  no \<open>>\<close> follows.
\<close>

fun tag_end :: "jsstring \<Rightarrow> jsstring option" where
  "tag_end [] = None"
| "tag_end (c # cs) = (if c = 0x3E then Some cs else tag_end cs)"

lemma tag_end_length: "tag_end cs = Some rest \<Longrightarrow> length rest < length cs"
  by (induction cs) (auto split: if_splits)

function replace_tags :: "jsstring \<Rightarrow> jsstring" where
  "replace_tags [] = []"
| "replace_tags (c # cs) =
     (if c = 0x3C
      then (case tag_end cs of
              Some rest \<Rightarrow> replace_tags rest
            | None \<Rightarrow> c # replace_tags cs)
      else c # replace_tags cs)"
  by pat_completeness auto
termination
  by (relation "measure length") (auto dest: tag_end_length)

definition isWhiteSpace :: "16 word \<Rightarrow> bool" where
  "isWhiteSpace c =
     (c \<in> {0x09, 0x0A, 0x0B, 0x0C, 0x0D, 0x20, 0xA0, 0x1680, 0x2028, 0x2029, 0x202F, 0x205F,
            0x3000, 0xFEFF}
      \<or> (0x2000 \<le> c \<and> c \<le> 0x200A))"

definition trim :: "jsstring \<Rightarrow> jsstring" where
  "trim s = rev (dropWhile isWhiteSpace (rev (dropWhile isWhiteSpace s)))"

definition stripHtmlTags :: "jsstring option \<Rightarrow> jsstring" where
  "stripHtmlTags html =
     (case html of
        None \<Rightarrow> []
      | Some h \<Rightarrow> if h = [] then [] else trim (replace_tags h))"

text \<open>Some \<open><\<close> of the string is followed, somewhere later, by a \<open>>\<close>.\<close>

fun has_tag :: "jsstring \<Rightarrow> bool" where
  "has_tag [] = False"
| "has_tag (c # cs) = ((c = 0x3C \<and> 0x3E \<in> set cs) \<or> has_tag cs)"

section \<open>ReportCard: date\<close>

subsection \<open>Time values and calendar fields of the platform\<close>

text \<open>
  \<open>formatDate\<close> calls \<open>new Date(dateString)\<close>, \<open>getFullYear\<close>, \<open>getMonth\<close> and
  \<open>getDate\<close>. These are defined by ECMA-262 over time values, the milliseconds since
  1970-01-01T00:00:00Z, and the definitions below follow it. The year of a time is the
  largest year that starts at or before it; \<open>YearFromTime\<close> computes it from an estimate
  that is at most one year off (lemma \<open>YearFromTime_spec\<close>).
\<close>

definition msPerDay :: int where "msPerDay = 86400000"
definition msPerHour :: int where "msPerHour = 3600000"
definition msPerMinute :: int where "msPerMinute = 60000"
definition msPerSecond :: int where "msPerSecond = 1000"

definition Day :: "int \<Rightarrow> int" where "Day t = t div msPerDay"
definition DaysInYear :: "int \<Rightarrow> int" where
  "DaysInYear y =
     (if y mod 4 \<noteq> 0 then 365
      else if y mod 100 \<noteq> 0 then 366
      else if y mod 400 \<noteq> 0 then 365
      else 366)"

definition DayFromYear :: "int \<Rightarrow> int" where
  "DayFromYear y =
     365 * (y - 1970) + (y - 1969) div 4 - (y - 1901) div 100 + (y - 1601) div 400"

definition TimeFromYear :: "int \<Rightarrow> int" where
  "TimeFromYear y = msPerDay * DayFromYear y"

definition YearFromTime :: "int \<Rightarrow> int" where
  "YearFromTime t =
     (let y0 = 1970 + (400 * Day t) div 146097
      in if TimeFromYear (y0 + 1) \<le> t then y0 + 1
         else if TimeFromYear y0 \<le> t then y0
         else y0 - 1)"

definition InLeapYear :: "int \<Rightarrow> int" where
  "InLeapYear t = (if DaysInYear (YearFromTime t) = 366 then 1 else 0)"

definition DayWithinYear :: "int \<Rightarrow> int" where
  "DayWithinYear t = Day t - DayFromYear (YearFromTime t)"

text \<open>
  The month and the day of the month are read off the day within the year by the table of
  the standard; \<open>leap\<close> is 1 in a leap year and 0 otherwise.
\<close>

definition month_of_day :: "int \<Rightarrow> int \<Rightarrow> int" where
  "month_of_day d leap =
     (if d < 31 then 0
      else if d < 59 + leap then 1
      else if d < 90 + leap then 2
      else if d < 120 + leap then 3
      else if d < 151 + leap then 4
      else if d < 181 + leap then 5
      else if d < 212 + leap then 6
      else if d < 243 + leap then 7
      else if d < 273 + leap then 8
      else if d < 304 + leap then 9
      else if d < 334 + leap then 10
      else 11)"

definition MonthFromTime :: "int \<Rightarrow> int" where
  "MonthFromTime t = month_of_day (DayWithinYear t) (InLeapYear t)"

definition date_of_day :: "int \<Rightarrow> int \<Rightarrow> int \<Rightarrow> int" where
  "date_of_day d leap m =
     (if m = 0 then d + 1
      else if m = 1 then d - 30
      else if m = 2 then d - 58 - leap
      else if m = 3 then d - 89 - leap
      else if m = 4 then d - 119 - leap
      else if m = 5 then d - 150 - leap
      else if m = 6 then d - 180 - leap
      else if m = 7 then d - 211 - leap
      else if m = 8 then d - 242 - leap
      else if m = 9 then d - 272 - leap
      else if m = 10 then d - 303 - leap
      else d - 333 - leap)"

definition DateFromTime :: "int \<Rightarrow> int" where
  "DateFromTime t = date_of_day (DayWithinYear t) (InLeapYear t) (MonthFromTime t)"

definition MakeTime :: "int \<Rightarrow> int \<Rightarrow> int \<Rightarrow> int \<Rightarrow> int" where
  "MakeTime hour minute sec ms = hour * msPerHour + minute * msPerMinute + sec * msPerSecond + ms"

text \<open>
  \<open>MakeDay\<close> asks for the day number of the first day of the month \<open>mn\<close> of the year
  \<open>ym\<close>: the first day of the year plus the days of the months before \<open>mn\<close>.
\<close>

definition first_day_of_month :: "int \<Rightarrow> int \<Rightarrow> int" where
  "first_day_of_month leap mn =
     (if mn = 0 then 0
      else if mn = 1 then 31
      else if mn = 2 then 59 + leap
      else if mn = 3 then 90 + leap
      else if mn = 4 then 120 + leap
      else if mn = 5 then 151 + leap
      else if mn = 6 then 181 + leap
      else if mn = 7 then 212 + leap
      else if mn = 8 then 243 + leap
      else if mn = 9 then 273 + leap
      else if mn = 10 then 304 + leap
      else 334 + leap)"

definition leap_days :: "int \<Rightarrow> int" where
  "leap_days y = (if DaysInYear y = 366 then 1 else 0)"

definition MakeDay :: "int \<Rightarrow> int \<Rightarrow> int \<Rightarrow> int" where
  "MakeDay year month date =
     (let ym = year + month div 12; mn = month mod 12
      in DayFromYear ym + first_day_of_month (leap_days ym) mn + date - 1)"

definition MakeDate :: "int \<Rightarrow> int \<Rightarrow> int" where
  "MakeDate day time = day * msPerDay + time"

definition TimeClip :: "int \<Rightarrow> int option" where
  "TimeClip time = (if \<bar>time\<bar> > 8640000000000000 then None else Some time)"


subsection \<open>The date-time string format\<close>

text \<open>
  The format of ECMA-262: \<open>YYYY\<close>, \<open>YYYY-MM\<close> or \<open>YYYY-MM-DD\<close> (the year also as a
  sign and six digits), alone or followed by \<open>T\<close> and \<open>HH:mm\<close>, \<open>HH:mm:ss\<close> or
  \<open>HH:mm:ss.sss\<close> and then nothing, \<open>Z\<close> or an offset \<open>+HH:mm\<close>, \<open>-HH:mm\<close>.
  \<open>parse_iso\<close> returns the fields of a string of this format and \<open>None\<close> for any other
  string.
\<close>

definition is_digit :: "16 word \<Rightarrow> bool" where
  "is_digit c = (0x30 \<le> c \<and> c \<le> 0x39)"

definition digit_value :: "16 word \<Rightarrow> int" where
  "digit_value c = uint c - 48"

fun read2 :: "jsstring \<Rightarrow> (int \<times> jsstring) option" where
  "read2 (a # b # rest) =
     (if is_digit a \<and> is_digit b then Some (10 * digit_value a + digit_value b, rest) else None)"
| "read2 _ = None"

fun read3 :: "jsstring \<Rightarrow> (int \<times> jsstring) option" where
  "read3 (a # rest) =
     (if is_digit a
      then (case read2 rest of None \<Rightarrow> None | Some (n, r) \<Rightarrow> Some (100 * digit_value a + n, r))
      else None)"
| "read3 _ = None"

definition read4 :: "jsstring \<Rightarrow> (int \<times> jsstring) option" where
  "read4 s =
     (case read2 s of
        None \<Rightarrow> None
      | Some (hi, r) \<Rightarrow> (case read2 r of None \<Rightarrow> None | Some (lo, r') \<Rightarrow> Some (100 * hi + lo, r')))"

definition read6 :: "jsstring \<Rightarrow> (int \<times> jsstring) option" where
  "read6 s =
     (case read2 s of
        None \<Rightarrow> None
      | Some (hi, r) \<Rightarrow> (case read4 r of None \<Rightarrow> None | Some (lo, r') \<Rightarrow> Some (10000 * hi + lo, r')))"

fun expect :: "16 word \<Rightarrow> jsstring \<Rightarrow> jsstring option" where
  "expect c [] = None"
| "expect c (x # xs) = (if x = c then Some xs else None)"

datatype zone = Local | Offset int int int

fun offset_minutes :: "zone \<Rightarrow> int" where
  "offset_minutes Local = 0"
| "offset_minutes (Offset sign h m) = sign * (60 * h + m)"

record date_fields =
  f_year :: int
  f_month :: int
  f_day :: int
  f_hour :: int
  f_minute :: int
  f_second :: int
  f_ms :: int
  f_date_only :: bool
  f_zone :: zone

definition parse_year :: "jsstring \<Rightarrow> (int \<times> jsstring) option" where
  "parse_year s =
     (case s of
        [] \<Rightarrow> None
      | c # cs \<Rightarrow>
          if c = 0x2B then read6 cs
          else if c = 0x2D
          then (case read6 cs of
                  None \<Rightarrow> None
                | Some (y, r) \<Rightarrow> if y = 0 then None else Some (- y, r))
          else read4 s)"

definition parse_date :: "jsstring \<Rightarrow> (int \<times> int \<times> int \<times> jsstring) option" where
  "parse_date s =
     (case parse_year s of
        None \<Rightarrow> None
      | Some (y, r) \<Rightarrow>
          (case expect 0x2D r of
             None \<Rightarrow> Some (y, 1, 1, r)
           | Some r1 \<Rightarrow>
               (case read2 r1 of
                  None \<Rightarrow> None
                | Some (mo, r2) \<Rightarrow>
                    (case expect 0x2D r2 of
                       None \<Rightarrow> Some (y, mo, 1, r2)
                     | Some r3 \<Rightarrow>
                         (case read2 r3 of
                            None \<Rightarrow> None
                          | Some (d, r4) \<Rightarrow> Some (y, mo, d, r4))))))"

definition parse_zone :: "jsstring \<Rightarrow> zone option" where
  "parse_zone s =
     (case s of
        [] \<Rightarrow> Some Local
      | c # cs \<Rightarrow>
          if c = 0x5A then (if cs = [] then Some (Offset 1 0 0) else None)
          else if c = 0x2B \<or> c = 0x2D
          then (case read2 cs of
                  None \<Rightarrow> None
                | Some (h, r) \<Rightarrow>
                    (case expect 0x3A r of
                       None \<Rightarrow> None
                     | Some r1 \<Rightarrow>
                         (case read2 r1 of
                            None \<Rightarrow> None
                          | Some (m, r2) \<Rightarrow>
                              if r2 = [] then Some (Offset (if c = 0x2B then 1 else - 1) h m)
                              else None)))
          else None)"

definition parse_seconds :: "jsstring \<Rightarrow> (int \<times> int \<times> jsstring) option" where
  "parse_seconds s =
     (case expect 0x3A s of
        None \<Rightarrow> Some (0, 0, s)
      | Some r \<Rightarrow>
          (case read2 r of
             None \<Rightarrow> None
           | Some (sec, r1) \<Rightarrow>
               (case expect 0x2E r1 of
                  None \<Rightarrow> Some (sec, 0, r1)
                | Some r2 \<Rightarrow>
                    (case read3 r2 of
                       None \<Rightarrow> None
                     | Some (ms, r3) \<Rightarrow> Some (sec, ms, r3)))))"

definition parse_time :: "jsstring \<Rightarrow> (int \<times> int \<times> int \<times> int \<times> zone) option" where
  "parse_time s =
     (case read2 s of
        None \<Rightarrow> None
      | Some (h, r) \<Rightarrow>
          (case expect 0x3A r of
             None \<Rightarrow> None
           | Some r1 \<Rightarrow>
               (case read2 r1 of
                  None \<Rightarrow> None
                | Some (m, r2) \<Rightarrow>
                    (case parse_seconds r2 of
                       None \<Rightarrow> None
                     | Some (sec, ms, r3) \<Rightarrow>
                         (case parse_zone r3 of
                            None \<Rightarrow> None
                          | Some z \<Rightarrow> Some (h, m, sec, ms, z))))))"

definition parse_iso :: "jsstring \<Rightarrow> date_fields option" where
  "parse_iso s =
     (case parse_date s of
        None \<Rightarrow> None
      | Some (y, mo, d, r) \<Rightarrow>
          if r = []
          then Some \<lparr>f_year = y, f_month = mo, f_day = d, f_hour = 0, f_minute = 0, f_second = 0,
                      f_ms = 0, f_date_only = True, f_zone = Local\<rparr>
          else (case expect 0x54 r of
                  None \<Rightarrow> None
                | Some r1 \<Rightarrow>
                    (case parse_time r1 of
                       None \<Rightarrow> None
                     | Some (h, m, sec, ms, z) \<Rightarrow>
                         Some \<lparr>f_year = y, f_month = mo, f_day = d, f_hour = h, f_minute = m,
                               f_second = sec, f_ms = ms, f_date_only = False, f_zone = z\<rparr>)))"

text \<open>
  The bounds of the fields. A day of the month up to 31 is accepted in every month, as the
  V8 engine does; \<open>MakeDay\<close> carries the excess into the next month. For a string of the
  format with a field out of bounds the standard asks for \<open>NaN\<close>, and V8 tries its older
  formats: such a string is left to the runtime, like a string that is not of the format.
\<close>

definition in_bounds :: "date_fields \<Rightarrow> bool" where
  "in_bounds f =
     (1 \<le> f_month f \<and> f_month f \<le> 12 \<and> 1 \<le> f_day f \<and> f_day f \<le> 31
      \<and> (f_hour f \<le> 23 \<and> f_minute f \<le> 59 \<and> f_second f \<le> 59
          \<or> f_hour f = 24 \<and> f_minute f = 0 \<and> f_second f = 0 \<and> f_ms f = 0)
      \<and> (case f_zone f of Local \<Rightarrow> True | Offset sign h m \<Rightarrow> h \<le> 23 \<and> m \<le> 59))"

text \<open>
  What ECMA-262 leaves to the runtime: the offset of local time from UTC in milliseconds,
  \<open>LocalTZA t isUTC\<close>, which depends on the time zone of the process and on the time
  \<open>t\<close> (a UTC time when \<open>isUTC\<close>, a local time otherwise), and the parsing of strings
  that are not in the format above or have a field out of bounds (\<open>None\<close> is \<open>NaN\<close>).
\<close>

record platform =
  LocalTZA :: "int \<Rightarrow> bool \<Rightarrow> int"
  fallbackParse :: "jsstring \<Rightarrow> int option"

definition LocalTime :: "platform \<Rightarrow> int \<Rightarrow> int" where
  "LocalTime env t = t + LocalTZA env t True"

definition UTC :: "platform \<Rightarrow> int \<Rightarrow> int" where
  "UTC env t = t - LocalTZA env t False"

text \<open>
  The time value of parsed fields: a string with an offset denotes that instant, a date
  without time is taken as UTC, a date with time and no offset is taken as local time.
\<close>

definition fields_time :: "platform \<Rightarrow> date_fields \<Rightarrow> int" where
  "fields_time env f =
     (let tv = MakeDate (MakeDay (f_year f) (f_month f - 1) (f_day f))
                 (MakeTime (f_hour f) (f_minute f) (f_second f) (f_ms f))
      in case f_zone f of
           Offset sign h m \<Rightarrow> tv - offset_minutes (Offset sign h m) * msPerMinute
         | Local \<Rightarrow> if f_date_only f then tv else UTC env tv)"

definition Date_parse :: "platform \<Rightarrow> jsstring \<Rightarrow> int option" where
  "Date_parse env s =
     (case parse_iso s of
        None \<Rightarrow> fallbackParse env s
      | Some f \<Rightarrow> if in_bounds f then Some (fields_time env f) else fallbackParse env s)"

text \<open>A date object is its time value; \<open>None\<close> is the invalid date (\<open>NaN\<close>).\<close>

definition new_Date :: "platform \<Rightarrow> jsstring \<Rightarrow> int option" where
  "new_Date env s = (case Date_parse env s of None \<Rightarrow> None | Some tv \<Rightarrow> TimeClip tv)"

definition getFullYear :: "platform \<Rightarrow> int option \<Rightarrow> int option" where
  "getFullYear env date = map_option (\<lambda>t. YearFromTime (LocalTime env t)) date"

definition getMonth :: "platform \<Rightarrow> int option \<Rightarrow> int option" where
  "getMonth env date = map_option (\<lambda>t. MonthFromTime (LocalTime env t)) date"

definition getDate :: "platform \<Rightarrow> int option \<Rightarrow> int option" where
  "getDate env date = map_option (\<lambda>t. DateFromTime (LocalTime env t)) date"

text \<open>
  Number to string, for the integers that occur here (below \<open>10^21\<close>), and \<open>padStart\<close>
  with a filler of one code unit.
\<close>

fun digits_of :: "nat \<Rightarrow> jsstring" where
  "digits_of n =
     (if n < 10 then [of_nat (48 + n)] else digits_of (n div 10) @ [of_nat (48 + n mod 10)])"

definition number_to_string :: "int option \<Rightarrow> jsstring" where
  "number_to_string v =
     (case v of
        None \<Rightarrow> ascii ''NaN''
      | Some n \<Rightarrow> if n < 0 then 0x2D # digits_of (nat (- n)) else digits_of (nat n))"

definition padStart :: "nat \<Rightarrow> 16 word \<Rightarrow> jsstring \<Rightarrow> jsstring" where
  "padStart targetLength fill s = replicate (targetLength - length s) fill @ s"

definition formatDate :: "platform \<Rightarrow> jsstring \<Rightarrow> jsstring" where
  "formatDate env dateString =
     (let date = new_Date env dateString
      in number_to_string (getFullYear env date) @ [0x2E]
         @ padStart 2 0x30 (number_to_string (map_option (\<lambda>m. m + 1) (getMonth env date))) @ [0x2E]
         @ padStart 2 0x30 (number_to_string (getDate env date)))"

declare digits_of.simps [simp del]

text \<open>
  Two runtimes to evaluate in. The first has a zone of one fixed offset, in minutes east of
  UTC. The second has the offsets of Central European Time in 2024: one hour, and two hours
  from 2024-03-31T01:00Z to 2024-10-27T01:00Z; a local time that the change skips or
  repeats is read with the offset before the change. Both parse the standard format only;
  every string evaluated below is of that format and in bounds.
\<close>

definition fixed_zone :: "int \<Rightarrow> platform" where
  "fixed_zone minutes =
     \<lparr>LocalTZA = (\<lambda>t isUTC. minutes * msPerMinute), fallbackParse = (\<lambda>s. None)\<rparr>"

definition summer_time_zone :: platform where
  "summer_time_zone =
     \<lparr>LocalTZA = (\<lambda>t isUTC.
        if isUTC
        then (if 1711846800000 \<le> t \<and> t < 1729990800000 then 7200000 else 3600000)
        else (if 1711854000000 \<le> t \<and> t < 1729998000000 then 7200000 else 3600000)),
      fallbackParse = (\<lambda>s. None)\<rparr>"

subsection \<open>The written date\<close>

text \<open>
  The length of a month and the text \<open>y.MM.DD\<close> of a date. The written time is the time
  value of the written fields read as UTC. The offset of the input is the offset of the
  clock it is written in: the written offset, zero for a date without time, and the
  runtime's offset at the written local time for a date with time and no offset. The
  clock shift is what the runtime's clock, at the instant the input denotes, is ahead of
  the clock of the input. All three are in milliseconds.
\<close>

definition month_length :: "int \<Rightarrow> int \<Rightarrow> int" where
  "month_length leap m =
     (if m = 2 then 28 + leap else if m = 4 \<or> m = 6 \<or> m = 9 \<or> m = 11 then 30 else 31)"

definition days_in_month :: "int \<Rightarrow> int \<Rightarrow> int" where
  "days_in_month y m = month_length (leap_days y) m"

definition date_text :: "int \<Rightarrow> int \<Rightarrow> int \<Rightarrow> jsstring" where
  "date_text y m d =
     number_to_string (Some y) @ [0x2E] @ padStart 2 0x30 (number_to_string (Some m)) @ [0x2E]
     @ padStart 2 0x30 (number_to_string (Some d))"

definition written_time :: "date_fields \<Rightarrow> int" where
  "written_time f =
     MakeDate (MakeDay (f_year f) (f_month f - 1) (f_day f))
       (MakeTime (f_hour f) (f_minute f) (f_second f) (f_ms f))"

definition input_offset :: "platform \<Rightarrow> date_fields \<Rightarrow> int" where
  "input_offset env f =
     (case f_zone f of
        Offset sign h m \<Rightarrow> offset_minutes (Offset sign h m) * msPerMinute
      | Local \<Rightarrow> if f_date_only f then 0 else LocalTZA env (written_time f) False)"

definition clock_shift :: "platform \<Rightarrow> date_fields \<Rightarrow> int" where
  "clock_shift env f = LocalTZA env (fields_time env f) True - input_offset env f"

section \<open>ReportCard: industry names and tags\<close>

text \<open>
  Modelled from the spec: \<open>ReportListItem\<close> is declared in \<open>@/lib/api/reports\<close>, which is
  not among the sources. The metadata, its list of industries and the name of an industry
  may each be missing.
\<close>

record report_metadata =
  industries :: "industry list option"

record report_list_item =
  report_id :: int
  title :: jsstring
  summary :: "jsstring option"
  analysis_date :: jsstring
  industry_count :: int
  report_metadata :: "report_metadata option"

text \<open>\<open>report.report_metadata?.industries || []\<close>\<close>

definition metadata_industries :: "report_list_item \<Rightarrow> industry list" where
  "metadata_industries report =
     (case report_metadata report of
        None \<Rightarrow> []
      | Some m \<Rightarrow> (case industries m of None \<Rightarrow> [] | Some inds \<Rightarrow> inds))"

text \<open>\<open>industries.map((ind) => ind.industry_name).filter(Boolean)\<close>\<close>

definition industryNames :: "report_list_item \<Rightarrow> jsstring option list" where
  "industryNames report = filter truthy (map (\<lambda>ind. industry_name ind) (metadata_industries report))"

text \<open>
  The tag row of the card: absent when there is no name, otherwise one tag per name of
  \<open>slice(0, 3)\<close> with its index as key, its colour class and its text, and after them the
  remainder indicator \<open>+n\<close>, present when there are more than three names.
\<close>

datatype tag = Tag (tag_key: int) (tag_class: string) (tag_text: "jsstring option")

datatype tag_row = TagRow (row_tags: "tag list") (row_remainder: "int option")

definition industryTags :: "(jsstring \<Rightarrow> jsstring) \<Rightarrow> jsstring option list \<Rightarrow> tag_row option" where
  "industryTags toLowerCase names =
     (if int (length names) > 0
      then Some (TagRow
             (map_indexed (\<lambda>industryName index.
                 Tag index (getCategoryColor toLowerCase industryName) industryName)
               (slice 0 3 names))
             (if int (length names) > 3 then Some (int (length names) - 3) else None))
      else None)"


text \<open>
  The card as a whole: the formatted date, the line with the number of industries (only
  for a positive count), the title, the summary without tags (only for a truthy summary)
  and the tag row. The source also computes a \<open>category\<close> from the first name, which the
  markup does not use.
\<close>

record report_card =
  card_date :: jsstring
  card_industry_count :: "int option"
  card_title :: jsstring
  card_summary :: "jsstring option"
  card_tags :: "tag_row option"

definition ReportCard :: "platform \<Rightarrow> (jsstring \<Rightarrow> jsstring) \<Rightarrow> report_list_item \<Rightarrow> report_card" where
  "ReportCard env toLowerCase report =
     \<lparr>card_date = formatDate env (analysis_date report),
      card_industry_count = (if industry_count report > 0 then Some (industry_count report) else None),
      card_title = title report,
      card_summary = (if truthy (summary report) then Some (stripHtmlTags (summary report)) else None),
      card_tags = industryTags toLowerCase (industryNames report)\<rparr>"

section \<open>Home\<close>

text \<open>
  Modelled from the spec: \<open>getNewsCount\<close> and \<open>getSubscriberCount\<close> live in
  \<open>@/lib/api\<close>, which is not among the sources. A call returns a promise, which settles:
  it is fulfilled with the count or rejected with a failure.
\<close>

datatype ('e, 'a) promise = Fulfilled 'a | Rejected 'e

text \<open>The console: the lines written by \<open>console.error\<close>, each a message and a failure.\<close>

type_synonym 'e console = "(string \<times> 'e) list"

text \<open>\<open>p.catch(onRejected)\<close> for a handler that returns a value.\<close>

definition promise_catch ::
  "('e, 'a) promise \<Rightarrow> ('e \<Rightarrow> 'e console \<Rightarrow> 'a \<times> 'e console) \<Rightarrow> 'e console
     \<Rightarrow> ('e, 'a) promise \<times> 'e console" where
  "promise_catch p onRejected console =
     (case p of
        Fulfilled v \<Rightarrow> (Fulfilled v, console)
      | Rejected error \<Rightarrow>
          (case onRejected error console of (v, console') \<Rightarrow> (Fulfilled v, console')))"

text \<open>
  The two fetches run concurrently; which settles first is not fixed by the program.
  \<open>Promise.all\<close> is rejected with the failure of the promise that is rejected first.
\<close>

datatype settle_order = NewsFirst | SubscribersFirst

definition Promise_all ::
  "settle_order \<Rightarrow> ('e, 'a) promise \<Rightarrow> ('e, 'b) promise \<Rightarrow> ('e, 'a \<times> 'b) promise" where
  "Promise_all order p q =
     (case p of
        Fulfilled a \<Rightarrow> (case q of Fulfilled b \<Rightarrow> Fulfilled (a, b) | Rejected e \<Rightarrow> Rejected e)
      | Rejected e1 \<Rightarrow>
          (case q of
             Fulfilled b \<Rightarrow> Rejected e1
           | Rejected e2 \<Rightarrow> (case order of NewsFirst \<Rightarrow> Rejected e1 | SubscribersFirst \<Rightarrow> Rejected e2)))"

text \<open>
  The page that \<open>Home\<close> returns: the two counts handed to the hero section (everything
  else of the page is fixed). \<open>await\<close> of a rejected promise throws: \<open>Home\<close> then returns
  no page but the failure, \<open>Inl\<close>.
\<close>

datatype home_page = HomePage (hero_newsCount: int) (hero_subscriberCount: int)

definition Home ::
  "settle_order \<Rightarrow> ('e, int) promise \<Rightarrow> ('e, int) promise \<Rightarrow> 'e console
     \<Rightarrow> ('e + home_page) \<times> 'e console" where
  "Home order getNewsCount getSubscriberCount console =
     (let onNews = (\<lambda>error c. (0, c @ [(''Failed to fetch news count:'', error)]));
          onSubscribers = (\<lambda>error c. (0, c @ [(''Failed to fetch subscriber count:'', error)]));
          (news, subscribers, console') =
            (case order of
               NewsFirst \<Rightarrow>
                 (case promise_catch getNewsCount onNews console of
                    (n, c1) \<Rightarrow>
                      (case promise_catch getSubscriberCount onSubscribers c1 of
                         (s, c2) \<Rightarrow> (n, s, c2)))
             | SubscribersFirst \<Rightarrow>
                 (case promise_catch getSubscriberCount onSubscribers console of
                    (s, c1) \<Rightarrow>
                      (case promise_catch getNewsCount onNews c1 of
                         (n, c2) \<Rightarrow> (n, s, c2))))
      in case Promise_all order news subscribers of
           Rejected error \<Rightarrow> (Inl error, console')
         | Fulfilled (newsCount, subscriberCount) \<Rightarrow>
             (Inr (HomePage newsCount subscriberCount), console'))"

section \<open>getCategoryColor in the world of the runtime\<close>

text \<open>
  What the code of a page can write and read outside its arguments: the console, which
  the handlers of \<open>Home\<close> write, and the runtime's settings, which \<open>formatDate\<close> reads. A
  piece of code is a computation over this world: it returns a value and the world
  after it.
\<close>

record 'e world =
  world_console :: "'e console"
  world_platform :: platform

text \<open>
  The operations of the runtime as computations. \<open>console.error\<close> appends a line to the
  console. \<open>toLowerCase\<close> and \<open>includes\<close> are functions of their strings: ECMA-262
  gives them no effect and, unlike \<open>toLocaleLowerCase\<close>, no access to the locale or any
  other setting.
\<close>

definition console_error :: "string \<Rightarrow> 'e \<Rightarrow> ('e world, unit) state" where
  "console_error msg error =
     State (\<lambda>w. ((), w\<lparr>world_console := world_console w @ [(msg, error)]\<rparr>))"

definition String_toLowerCase :: "(jsstring \<Rightarrow> jsstring) \<Rightarrow> jsstring \<Rightarrow> ('e world, jsstring) state" where
  "String_toLowerCase toLowerCase s = State_Monad.return (toLowerCase s)"

definition String_includes :: "jsstring \<Rightarrow> jsstring \<Rightarrow> ('e world, bool) state" where
  "String_includes s search = State_Monad.return (js_includes s search)"

text \<open>
  \<open>getCategoryColor\<close>, statement by statement, as a computation: the test of the
  argument, the lower-casing, and the three tests with their returns; the right operand of
  \<open>||\<close> is evaluated only when the left one is false.
\<close>

definition getCategoryColor_in_world ::
  "(jsstring \<Rightarrow> jsstring) \<Rightarrow> jsstring option \<Rightarrow> ('e world, string) state" where
  "getCategoryColor_in_world toLowerCase category =
     (case category of
        None \<Rightarrow> State_Monad.return ''bg-slate-100 text-slate-700''
      | Some c \<Rightarrow>
          if c = [] then State_Monad.return ''bg-slate-100 text-slate-700''
          else do {
            categoryLower \<leftarrow> String_toLowerCase toLowerCase c;
            semiconductor \<leftarrow> String_includes categoryLower kw_semiconductor;
            green \<leftarrow> (if semiconductor then State_Monad.return True
                      else String_includes categoryLower kw_battery);
            if green then State_Monad.return ''bg-green-100 text-green-700''
            else do {
              finance \<leftarrow> String_includes categoryLower kw_finance;
              if finance then State_Monad.return ''bg-orange-100 text-orange-700''
              else do {
                game \<leftarrow> String_includes categoryLower kw_game;
                if game then State_Monad.return ''bg-red-100 text-red-700''
                else State_Monad.return ''bg-slate-100 text-slate-700''
              }
            }
          })"

text \<open>
  For comparison, two pieces of the same pages that do touch the world: the handler that
  \<open>Home\<close> gives to \<open>catch\<close> for the news count, and \<open>formatDate\<close>, whose \<open>Date\<close> methods
  read the settings of the runtime.
\<close>

definition formatDate_in_world :: "jsstring \<Rightarrow> ('e world, jsstring) state" where
  "formatDate_in_world dateString = do {
     w \<leftarrow> State_Monad.get;
     State_Monad.return (formatDate (world_platform w) dateString)
   }"

definition onNewsCountRejected :: "'e \<Rightarrow> ('e world, int) state" where
  "onNewsCountRejected error = do {
     _ \<leftarrow> console_error ''Failed to fetch news count:'' error;
     State_Monad.return 0
   }"

section \<open>Deduplication of stocks\<close>

lemma findIndexFrom_none: "\<forall>x \<in> set xs. \<not> p x \<Longrightarrow> findIndexFrom p k xs = - 1"
  by (induction xs arbitrary: k) auto

lemma findIndexFrom_range:
  "\<exists>x \<in> set xs. p x \<Longrightarrow> k \<le> findIndexFrom p k xs \<and> findIndexFrom p k xs < k + int (length xs)"
proof (induction xs arbitrary: k)
  case Nil
  then show ?case by simp
next
  case (Cons a xs)
  show ?case
  proof (cases "p a")
    case True
    then show ?thesis by simp
  next
    case False
    with Cons.prems have "\<exists>x \<in> set xs. p x" by auto
    from Cons.IH [OF this, of "k + 1"] False show ?thesis by simp
  qed
qed

lemma findIndexFrom_append:
  "\<exists>x \<in> set xs. p x \<Longrightarrow> findIndexFrom p k (xs @ ys) = findIndexFrom p k xs"
  by (induction xs arbitrary: k) auto

lemma findIndexFrom_append_none:
  "\<forall>x \<in> set xs. \<not> p x \<Longrightarrow> findIndexFrom p k (xs @ ys) = findIndexFrom p (k + int (length xs)) ys"
  by (induction xs arbitrary: k) (auto simp: algebra_simps)

lemma filterFrom_append:
  "filterFrom p self k (xs @ ys) = filterFrom p self k xs @ filterFrom p self (k + int (length xs)) ys"
  by (induction xs arbitrary: k) (auto simp: algebra_simps)

lemma filterFrom_cong_self:
  "(\<And>x i. x \<in> set xs \<Longrightarrow> p x i self = p x i self') \<Longrightarrow>
   filterFrom p self k xs = filterFrom p self' k xs"
  by (induction xs arbitrary: k) auto

lemma uniqueStocks_snoc:
  "uniqueStocks (xs @ [x]) =
     uniqueStocks xs @ (if stock_id x \<in> stock_id ` set xs then [] else [x])"
proof -
  let ?p = "\<lambda>stock index self. index = findIndex (\<lambda>s. stock_id s = stock_id stock) self"
  have old: "filterFrom ?p (xs @ [x]) 0 xs = filterFrom ?p xs 0 xs"
  proof (rule filterFrom_cong_self)
    fix y i assume "y \<in> set xs"
    then have "\<exists>s \<in> set xs. stock_id s = stock_id y" by blast
    then show "?p y i (xs @ [x]) = ?p y i xs"
      by (simp add: findIndex_def findIndexFrom_append)
  qed
  have new: "?p x (int (length xs)) (xs @ [x]) \<longleftrightarrow> stock_id x \<notin> stock_id ` set xs"
  proof (cases "stock_id x \<in> stock_id ` set xs")
    case True
    then have ex: "\<exists>s \<in> set xs. stock_id s = stock_id x" by auto
    from findIndexFrom_range [OF ex, of 0]
    have "findIndexFrom (\<lambda>s. stock_id s = stock_id x) 0 xs < int (length xs)" by simp
    with True ex show ?thesis
      by (simp add: findIndex_def findIndexFrom_append)
  next
    case False
    then have "\<forall>s \<in> set xs. \<not> stock_id s = stock_id x"
      by (auto simp: image_iff)
    with False show ?thesis
      by (simp add: findIndex_def findIndexFrom_append_none)
  qed
  have "uniqueStocks (xs @ [x]) =
          filterFrom ?p (xs @ [x]) 0 xs @ filterFrom ?p (xs @ [x]) (int (length xs)) [x]"
    by (simp add: uniqueStocks_def filter_indexed_def filterFrom_append)
  also have "\<dots> = uniqueStocks xs @ (if stock_id x \<in> stock_id ` set xs then [] else [x])"
    using new by (simp add: old uniqueStocks_def filter_indexed_def)
  finally show ?thesis .
qed

lemma uniqueStocks_Nil: "uniqueStocks [] = []"
  by (simp add: uniqueStocks_def filter_indexed_def)

lemma uniqueStocks_length: "length (uniqueStocks xs) \<le> length xs"
  by (induction xs rule: rev_induct) (auto simp: uniqueStocks_Nil uniqueStocks_snoc)

lemma uniqueStocks_ids: "stock_id ` set (uniqueStocks xs) = stock_id ` set xs"
  by (induction xs rule: rev_induct) (auto simp: uniqueStocks_Nil uniqueStocks_snoc)

lemma uniqueStocks_distinct: "distinct (map stock_id (uniqueStocks xs))"
proof (induction xs rule: rev_induct)
  case Nil
  show ?case by (simp add: uniqueStocks_Nil)
next
  case (snoc x xs)
  have "stock_id x \<notin> stock_id ` set xs \<Longrightarrow> stock_id x \<notin> stock_id ` set (uniqueStocks xs)"
    by (simp add: uniqueStocks_ids)
  with snoc show ?case by (simp add: uniqueStocks_snoc)
qed

lemma uniqueStocks_subseq: "subseq (uniqueStocks xs) xs"
proof (induction xs rule: rev_induct)
  case Nil
  show ?case by (simp add: uniqueStocks_Nil)
next
  case (snoc x xs)
  show ?case
  proof (cases "stock_id x \<in> stock_id ` set xs")
    case True
    with snoc show ?thesis by (simp add: uniqueStocks_snoc subseq_rev_drop_many)
  next
    case False
    with snoc show ?thesis by (simp add: uniqueStocks_snoc)
  qed
qed

lemma find_append_list:
  "find P (xs @ ys) = (case find P xs of None \<Rightarrow> find P ys | Some a \<Rightarrow> Some a)"
  by (induction xs) auto

lemma find_none_iff: "find P xs = None \<longleftrightarrow> (\<forall>x \<in> set xs. \<not> P x)"
  by (induction xs) auto

lemma uniqueStocks_first:
  "s \<in> set (uniqueStocks xs) \<Longrightarrow> find (\<lambda>t. stock_id t = stock_id s) xs = Some s"
proof (induction xs rule: rev_induct)
  case Nil
  then show ?case by (simp add: uniqueStocks_Nil)
next
  case (snoc x xs)
  show ?case
  proof (cases "s \<in> set (uniqueStocks xs)")
    case True
    with snoc.IH show ?thesis by (simp add: find_append_list)
  next
    case False
    with snoc.prems have new: "stock_id x \<notin> stock_id ` set xs" and sx: "s = x"
      by (auto simp: uniqueStocks_snoc split: if_splits)
    from new have "find (\<lambda>t. stock_id t = stock_id x) xs = None"
      by (auto simp: find_none_iff image_iff)
    with sx show ?thesis by (simp add: find_append_list)
  qed
qed

lemma uniqueStocks_order: "map stock_id (uniqueStocks xs) = rev (remdups (rev (map stock_id xs)))"
  by (induction xs rule: rev_induct) (auto simp: uniqueStocks_Nil uniqueStocks_snoc)

lemma uniqueStocks_fixed: "distinct (map stock_id ys) \<Longrightarrow> uniqueStocks ys = ys"
  by (induction ys rule: rev_induct) (auto simp: uniqueStocks_Nil uniqueStocks_snoc)

text \<open>
  C1. The sidebar's stock list is the flattening of the industries' stocks, industry by
  industry and stock by stock, with only the first occurrence of every stock id kept: it is
  no longer than the flattened list, its ids are distinct and are exactly the ids of the
  flattened list, it is a subsequence of the flattened list, every entry is the first stock
  of the flattened list with its id, and its ids come in the order of their first
  occurrences. Stocks with the ids 1, 2, 1 give the stocks with the ids 1, 2.
\<close>

theorem C1_sidebar_dedup_first_occurrence:
  "RecommendedStocksSidebar inds =
     (if uniqueStocks (allStocks inds) = [] then None
      else Some (Sidebar (uniqueStocks (allStocks inds))))
   \<and> allStocks inds = concat (map stocks inds)
   \<and> length (uniqueStocks (allStocks inds)) \<le> length (allStocks inds)
   \<and> distinct (map stock_id (uniqueStocks (allStocks inds)))
   \<and> set (map stock_id (uniqueStocks (allStocks inds))) = set (map stock_id (allStocks inds))
   \<and> subseq (uniqueStocks (allStocks inds)) (allStocks inds)
   \<and> map (\<lambda>s. find (\<lambda>t. stock_id t = stock_id s) (allStocks inds)) (uniqueStocks (allStocks inds))
       = map Some (uniqueStocks (allStocks inds))
   \<and> map stock_id (uniqueStocks (allStocks inds))
       = rev (remdups (rev (map stock_id (allStocks inds))))
   \<and> map stock_id (uniqueStocks (allStocks
         [\<lparr>industry_id = 1, industry_name = None, impact_description = None,
            stocks = [\<lparr>stock_id = 1, stock_code = a, stock_name = b\<rparr>,
                      \<lparr>stock_id = 2, stock_code = c, stock_name = d\<rparr>]\<rparr>,
          \<lparr>industry_id = 2, industry_name = None, impact_description = None,
            stocks = [\<lparr>stock_id = 1, stock_code = e, stock_name = f\<rparr>]\<rparr>])) = [1, 2]"
proof (intro conjI)
  let ?all = "allStocks inds"
  show "RecommendedStocksSidebar inds =
     (if uniqueStocks ?all = [] then None else Some (Sidebar (uniqueStocks ?all)))"
    by (simp add: RecommendedStocksSidebar_def Let_def)
  show "?all = concat (map stocks inds)"
    by (simp add: allStocks_def flatMap_def)
  show "length (uniqueStocks ?all) \<le> length ?all"
    by (rule uniqueStocks_length)
  show "distinct (map stock_id (uniqueStocks ?all))"
    by (rule uniqueStocks_distinct)
  show "set (map stock_id (uniqueStocks ?all)) = set (map stock_id ?all)"
    using uniqueStocks_ids [of ?all] by simp
  show "subseq (uniqueStocks ?all) ?all"
    by (rule uniqueStocks_subseq)
  show "map (\<lambda>s. find (\<lambda>t. stock_id t = stock_id s) ?all) (uniqueStocks ?all)
       = map Some (uniqueStocks ?all)"
    by (rule map_cong) (simp_all add: uniqueStocks_first)
  show "map stock_id (uniqueStocks ?all) = rev (remdups (rev (map stock_id ?all)))"
    by (rule uniqueStocks_order)
  show "map stock_id (uniqueStocks (allStocks
         [\<lparr>industry_id = 1, industry_name = None, impact_description = None,
            stocks = [\<lparr>stock_id = 1, stock_code = a, stock_name = b\<rparr>,
                      \<lparr>stock_id = 2, stock_code = c, stock_name = d\<rparr>]\<rparr>,
          \<lparr>industry_id = 2, industry_name = None, impact_description = None,
            stocks = [\<lparr>stock_id = 1, stock_code = e, stock_name = f\<rparr>]\<rparr>])) = [1, 2]"
    by (simp add: allStocks_def flatMap_def uniqueStocks_def filter_indexed_def findIndex_def)
qed

text \<open>
  C5. Deduplication by id is idempotent: applied to its own output, it returns that output
  unchanged.
\<close>

theorem C5_dedup_idempotent:
  "uniqueStocks (uniqueStocks xs) = uniqueStocks xs"
  by (rule uniqueStocks_fixed) (rule uniqueStocks_distinct)

section \<open>Empty collections\<close>

lemma uniqueStocks_empty_iff: "(uniqueStocks xs = []) = (xs = [])"
  by (induction xs rule: rev_induct) (auto simp: uniqueStocks_Nil uniqueStocks_snoc)

text \<open>
  C8. Empty collections render as nothing: the industries grid returns \<open>null\<close> exactly
  when it is given no industry, and the sidebar returns \<open>null\<close> exactly when the
  deduplicated stock list has length zero, which is when the industries hold no stock at
  all (in particular when there is no industry). Neither component has a failing branch.
\<close>

theorem C8_empty_collections_render_nothing:
  "ImpactedIndustriesGrid [] = None
   \<and> (ImpactedIndustriesGrid inds = None) = (inds = [])
   \<and> RecommendedStocksSidebar [] = None
   \<and> (RecommendedStocksSidebar inds = None) = (length (uniqueStocks (allStocks inds)) = 0)
   \<and> (length (uniqueStocks (allStocks inds)) = 0) = (concat (map stocks inds) = [])"
  by (simp add: ImpactedIndustriesGrid_def RecommendedStocksSidebar_def Let_def
        uniqueStocks_empty_iff allStocks_def flatMap_def uniqueStocks_Nil)

section \<open>Industry names and tags of the report card\<close>

lemma truthy_iff: "truthy = (\<lambda>v. v \<noteq> None \<and> v \<noteq> Some [])"
  by (rule ext) (simp add: truthy_def split: option.splits)

lemma slice_0_3: "slice 0 3 xs = take 3 xs"
  by (simp add: slice_def Let_def min_def)

lemma map_mapFrom: "(\<And>x i. g (f x i) = h x) \<Longrightarrow> map g (mapFrom f k xs) = map h xs"
  by (induction xs arbitrary: k) auto

lemma industryTags_texts:
  "(case industryTags lower names of None \<Rightarrow> [] | Some row \<Rightarrow> map tag_text (row_tags row))
     = take 3 names"
  by (simp add: industryTags_def map_indexed_def slice_0_3 map_mapFrom [where h = "\<lambda>x. x"])

text \<open>
  C9, as the code has it. The card's extraction step collects exactly the industry names
  that are neither \<open>null\<close> nor empty, in the order of the industries, and the card's tags
  show names of that list only. The impacted-industries grid shows one cell per industry
  it is given, in order, each with the industry's name as it is: it excludes nothing.
\<close>

theorem C9_names_filtered_by_card_only:
  "industryNames report
     = filter (\<lambda>v. v \<noteq> None \<and> v \<noteq> Some []) (map industry_name (metadata_industries report))
   \<and> list_all (\<lambda>v. v \<noteq> None \<and> v \<noteq> Some []) (industryNames report)
   \<and> (case industryTags lower (industryNames report) of
        None \<Rightarrow> [] | Some row \<Rightarrow> map tag_text (row_tags row)) = take 3 (industryNames report)
   \<and> (case ImpactedIndustriesGrid inds of
        None \<Rightarrow> [] | Some g \<Rightarrow> map cell_name (grid_cells g)) = map industry_name inds"
  apply (intro conjI)
  subgoal by (simp add: industryNames_def truthy_iff)
  subgoal by (simp add: industryNames_def truthy_iff list_all_iff)
  subgoal by (rule industryTags_texts)
  subgoal by (simp add: ImpactedIndustriesGrid_def comp_def)
  done

text \<open>
  The grid given an industry whose name is the empty string, followed by an industry
  named with the semiconductor keyword, displays a cell for each of them.
\<close>

theorem C9_grid_shows_nameless_industry:
  "ImpactedIndustriesGrid
     [\<lparr>industry_id = 1, industry_name = Some [], impact_description = None, stocks = []\<rparr>,
      \<lparr>industry_id = 2, industry_name = Some kw_semiconductor, impact_description = None,
        stocks = []\<rparr>]
   = Some (Grid [GridCell 1 (Some []) None, GridCell 2 (Some kw_semiconductor) None])"
  by (simp add: ImpactedIndustriesGrid_def truthy_def)

text \<open>
  C10. The tags of a report card are the first three extracted industry names, in their
  order, each with the colour class of its name. With more than three names the tags are
  followed by the remainder indicator with the number of names minus three; with three
  names or fewer there is no indicator. With no name there is no tag row.
\<close>

theorem C10_at_most_three_tags:
  "card_tags (ReportCard env lower report) = industryTags lower (industryNames report)
   \<and> (case industryTags lower (industryNames report) of
      None \<Rightarrow> [] | Some row \<Rightarrow> map tag_text (row_tags row)) = take 3 (industryNames report)
   \<and> (case industryTags lower (industryNames report) of
      None \<Rightarrow> [] | Some row \<Rightarrow> map tag_class (row_tags row))
       = map (getCategoryColor lower) (take 3 (industryNames report))
   \<and> (case industryTags lower (industryNames report) of
      None \<Rightarrow> None | Some row \<Rightarrow> row_remainder row)
       = (if length (industryNames report) > 3
          then Some (int (length (industryNames report)) - 3) else None)
   \<and> (industryTags lower (industryNames report) = None) = (industryNames report = [])"
  by (simp add: ReportCard_def industryTags_def map_indexed_def slice_0_3
        map_mapFrom [where h = "\<lambda>x. x"] map_mapFrom [where h = "getCategoryColor lower"])

section \<open>Category colours\<close>

lemma js_includes_sublist: "js_includes s k = sublist k s"
  by (induction s) (auto simp: sublist_Cons_right)

text \<open>
  C3. Provided lower-casing leaves the four keywords as they are (they are written in
  Hangul syllables and a digit, which have no case), the colour class of a candidate is
  the class of the bucket that the ordered rule list gives by case-insensitive
  containment, first match first: green for the semiconductor or the battery keyword,
  else orange for the finance keyword, else red for the game keyword, else neutral; and
  \<open>null\<close> and the empty string are neutral.
\<close>

theorem C3_category_rules_first_match:
  assumes "lower kw_semiconductor = kw_semiconductor" and "lower kw_battery = kw_battery"
    and "lower kw_finance = kw_finance" and "lower kw_game = kw_game"
  shows "getCategoryColor lower category = bucket_class (classify_spec lower category)
    \<and> getCategoryColor lower None = bucket_class Slate
    \<and> getCategoryColor lower (Some []) = bucket_class Slate"
  using assms
  by (simp add: getCategoryColor_def classify_spec_def category_rules_def contains_ci_def
        js_includes_sublist bucket_class_def Let_def split: option.splits)

theorem C3_category_rules_first_match_witness:
  "lower_ascii kw_semiconductor = kw_semiconductor \<and> lower_ascii kw_battery = kw_battery
   \<and> lower_ascii kw_finance = kw_finance \<and> lower_ascii kw_game = kw_game
   \<and> getCategoryColor lower_ascii (Some (ascii ''AI '' @ [0xBC18, 0xB3C4, 0xCCB4]))
       = bucket_class (classify_spec lower_ascii (Some (ascii ''AI '' @ [0xBC18, 0xB3C4, 0xCCB4])))
   \<and> getCategoryColor lower_ascii (Some (ascii ''AI '' @ [0xBC18, 0xB3C4, 0xCCB4]))
       = ''bg-green-100 text-green-700''"
proof -
  have fixed: "lower_ascii kw_semiconductor = kw_semiconductor" "lower_ascii kw_battery = kw_battery"
    "lower_ascii kw_finance = kw_finance" "lower_ascii kw_game = kw_game"
    by (simp_all add: lower_ascii_def kw_semiconductor_def kw_battery_def kw_finance_def kw_game_def)
  have green: "getCategoryColor lower_ascii (Some (ascii ''AI '' @ [0xBC18, 0xB3C4, 0xCCB4]))
       = ''bg-green-100 text-green-700''"
    by (simp add: getCategoryColor_def lower_ascii_def ascii_def kw_semiconductor_def Let_def)
  from C3_category_rules_first_match [OF fixed, of "Some (ascii ''AI '' @ [0xBC18, 0xB3C4, 0xCCB4])"]
  show ?thesis using fixed green by simp
qed

text \<open>
  In this world a computation can write and can read: the handler of \<open>Home\<close> leaves a
  world that differs from the one it started in, and \<open>formatDate\<close> returns different
  texts in two worlds.
\<close>

lemma formatDate_two_zones:
  "formatDate (fixed_zone 540) (ascii ''2024-01-15T20:00:00Z'') = ascii ''2024.01.16''"
  "formatDate (fixed_zone 0) (ascii ''2024-01-15T20:00:00Z'') = ascii ''2024.01.15''"
  by code_simp+

lemma formatDate_reads_world:
  "fst (run_state (formatDate_in_world (ascii ''2024-01-15T20:00:00Z''))
          \<lparr>world_console = [], world_platform = fixed_zone 540\<rparr>)
   \<noteq> fst (run_state (formatDate_in_world (ascii ''2024-01-15T20:00:00Z''))
          \<lparr>world_console = [], world_platform = fixed_zone 0\<rparr>)"
proof -
  have "ascii ''2024.01.16'' \<noteq> ascii ''2024.01.15''"
    by (simp add: ascii_def)
  then show ?thesis
    by (simp add: formatDate_in_world_def formatDate_two_zones)
qed

lemma onNewsCountRejected_writes:
  "run_state (onNewsCountRejected error) w
     = (0, w\<lparr>world_console := world_console w @ [(''Failed to fetch news count:'', error)]\<rparr>)"
  "snd (run_state (onNewsCountRejected error) w) \<noteq> w"
proof -
  show run: "run_state (onNewsCountRejected error) w
     = (0, w\<lparr>world_console := world_console w @ [(''Failed to fetch news count:'', error)]\<rparr>)"
    by (simp add: onNewsCountRejected_def console_error_def)
  have "world_console (snd (run_state (onNewsCountRejected error) w)) \<noteq> world_console w"
    by (simp add: run)
  then show "snd (run_state (onNewsCountRejected error) w) \<noteq> w"
    by auto
qed

text \<open>
  C6. Run in any world, \<open>getCategoryColor\<close> returns the colour class that is the function
  of the candidate (and of the lower-casing of the runtime) and leaves the world as it
  was: console and settings are unchanged. Two evaluations on the same candidate, in any
  two worlds, return the same class.
\<close>

theorem C6_category_colour_pure:
  fixes w w1 w2 :: "'e world"
  shows "run_state (getCategoryColor_in_world toLowerCase category) w
     = (getCategoryColor toLowerCase category, w)
   \<and> snd (run_state (getCategoryColor_in_world toLowerCase category) w) = w
   \<and> fst (run_state (getCategoryColor_in_world toLowerCase category) w1)
       = fst (run_state (getCategoryColor_in_world toLowerCase category) w2)"
proof -
  have run: "run_state (getCategoryColor_in_world toLowerCase category) v
     = (getCategoryColor toLowerCase category, v)" for v :: "'e world"
    by (simp add: getCategoryColor_in_world_def getCategoryColor_def String_toLowerCase_def
          String_includes_def Let_def split: option.splits)
  show ?thesis by (simp add: run)
qed

section \<open>Summary text\<close>

lemma tag_end_Some_iff: "tag_end cs = Some rest \<longleftrightarrow> (\<exists>t. cs = t @ 0x3E # rest \<and> 0x3E \<notin> set t)"
proof (induction cs)
  case Nil
  show ?case by simp
next
  case (Cons c cs)
  show ?case
  proof (cases "c = 0x3E")
    case True
    show ?thesis
    proof
      assume "tag_end (c # cs) = Some rest"
      with True have "c # cs = [] @ 0x3E # rest \<and> 0x3E \<notin> set []" by simp
      then show "\<exists>t. c # cs = t @ 0x3E # rest \<and> 0x3E \<notin> set t" by blast
    next
      assume "\<exists>t. c # cs = t @ 0x3E # rest \<and> 0x3E \<notin> set t"
      then obtain t where t: "c # cs = t @ 0x3E # rest" "0x3E \<notin> set t" by blast
      with True have "t = []" by (cases t) auto
      with t True show "tag_end (c # cs) = Some rest" by simp
    qed
  next
    case False
    have "(\<exists>t. c # cs = t @ 0x3E # rest \<and> 0x3E \<notin> set t) \<longleftrightarrow> (\<exists>t. cs = t @ 0x3E # rest \<and> 0x3E \<notin> set t)"
    proof
      assume "\<exists>t. c # cs = t @ 0x3E # rest \<and> 0x3E \<notin> set t"
      then obtain t where t: "c # cs = t @ 0x3E # rest" "0x3E \<notin> set t" by blast
      with False obtain t' where "t = c # t'" by (cases t) auto
      with t show "\<exists>t. cs = t @ 0x3E # rest \<and> 0x3E \<notin> set t" by auto
    next
      assume "\<exists>t. cs = t @ 0x3E # rest \<and> 0x3E \<notin> set t"
      then obtain t where t: "cs = t @ 0x3E # rest" "0x3E \<notin> set t" by blast
      with False have "c # cs = (c # t) @ 0x3E # rest \<and> 0x3E \<notin> set (c # t)" by simp
      then show "\<exists>t. c # cs = t @ 0x3E # rest \<and> 0x3E \<notin> set t" by blast
    qed
    with False Cons.IH show ?thesis by simp
  qed
qed

lemma tag_end_None_iff: "tag_end cs = None \<longleftrightarrow> 0x3E \<notin> set cs"
  by (induction cs) auto

lemma tag_end_append: "0x3E \<notin> set t \<Longrightarrow> tag_end (t @ 0x3E # b) = Some b"
  by (induction t) auto

lemma replace_tags_set: "set (replace_tags s) \<subseteq> set s"
proof (induction s rule: replace_tags.induct)
  case 1
  show ?case by simp
next
  case (2 c cs)
  show ?case
  proof (cases "c = 0x3C")
    case False
    with 2 show ?thesis by auto
  next
    case True
    show ?thesis
    proof (cases "tag_end cs")
      case None
      with True 2 show ?thesis by auto
    next
      case (Some rest)
      then obtain t where "cs = t @ 0x3E # rest" by (auto simp: tag_end_Some_iff)
      with True Some 2 show ?thesis by auto
    qed
  qed
qed

lemma has_tag_iff: "has_tag s \<longleftrightarrow> (\<exists>a t b. s = a @ 0x3C # t @ 0x3E # b)"
proof (induction s)
  case Nil
  show ?case by simp
next
  case (Cons c cs)
  show ?case
  proof
    assume "has_tag (c # cs)"
    then consider "c = 0x3C" "0x3E \<in> set cs" | "has_tag cs" by auto
    then show "\<exists>a t b. c # cs = a @ 0x3C # t @ 0x3E # b"
    proof cases
      case 1
      from 1(2) obtain t b where "cs = t @ 0x3E # b" by (auto simp: in_set_conv_decomp)
      with 1(1) have "c # cs = [] @ 0x3C # t @ 0x3E # b" by simp
      then show ?thesis by blast
    next
      case 2
      with Cons.IH obtain a t b where "cs = a @ 0x3C # t @ 0x3E # b" by blast
      then have "c # cs = (c # a) @ 0x3C # t @ 0x3E # b" by simp
      then show ?thesis by blast
    qed
  next
    assume "\<exists>a t b. c # cs = a @ 0x3C # t @ 0x3E # b"
    then obtain a t b where e: "c # cs = a @ 0x3C # t @ 0x3E # b" by blast
    show "has_tag (c # cs)"
    proof (cases a)
      case Nil
      with e show ?thesis by auto
    next
      case (Cons x a')
      with e have "cs = a' @ 0x3C # t @ 0x3E # b" by simp
      with Cons.IH show ?thesis by auto
    qed
  qed
qed

lemma has_tag_no_gt: "0x3E \<notin> set s \<Longrightarrow> \<not> has_tag s"
  by (induction s) auto

lemma replace_tags_no_tag: "\<not> has_tag (replace_tags s)"
proof (induction s rule: replace_tags.induct)
  case 1
  show ?case by simp
next
  case (2 c cs)
  show ?case
  proof (cases "c = 0x3C")
    case False
    with 2 show ?thesis by simp
  next
    case True
    show ?thesis
    proof (cases "tag_end cs")
      case None
      then have "0x3E \<notin> set cs" by (simp add: tag_end_None_iff)
      with replace_tags_set [of cs] have "0x3E \<notin> set (replace_tags cs)" by auto
      with True None 2 show ?thesis by simp
    next
      case (Some rest)
      with True 2 show ?thesis by simp
    qed
  qed
qed

lemma replace_tags_keep: "\<not> has_tag s \<Longrightarrow> replace_tags s = s"
proof (induction s rule: replace_tags.induct)
  case 1
  show ?case by simp
next
  case (2 c cs)
  from "2.prems" have nt: "\<not> has_tag cs" and c: "c = 0x3C \<Longrightarrow> 0x3E \<notin> set cs" by auto
  show ?case
  proof (cases "c = 0x3C")
    case False
    with 2 nt show ?thesis by simp
  next
    case True
    with c have "tag_end cs = None" by (simp add: tag_end_None_iff)
    with True 2 nt show ?thesis by simp
  qed
qed

lemma replace_tags_first:
  "0x3C \<notin> set a \<Longrightarrow> 0x3E \<notin> set t \<Longrightarrow>
   replace_tags (a @ 0x3C # t @ 0x3E # b) = a @ replace_tags b"
  by (induction a) (auto simp: tag_end_append)

lemma rev_dropWhile_split:
  "x = rev (dropWhile P (rev x)) @ rev (takeWhile P (rev x))"
proof -
  have "rev (dropWhile P (rev x)) @ rev (takeWhile P (rev x))
          = rev (takeWhile P (rev x) @ dropWhile P (rev x))"
    by (simp only: rev_append)
  also have "\<dots> = x" by simp
  finally show ?thesis by simp
qed

lemma trim_decomp:
  "\<exists>pre suf. s = pre @ trim s @ suf \<and> list_all isWhiteSpace pre \<and> list_all isWhiteSpace suf"
proof -
  let ?pre = "takeWhile isWhiteSpace s"
  let ?mid = "dropWhile isWhiteSpace s"
  let ?suf = "rev (takeWhile isWhiteSpace (rev ?mid))"
  have "?mid = trim s @ ?suf"
    unfolding trim_def by (rule rev_dropWhile_split)
  then have "?pre @ ?mid = ?pre @ trim s @ ?suf" by simp
  then have "s = ?pre @ trim s @ ?suf" by simp
  moreover have "list_all isWhiteSpace ?pre"
    by (simp add: list_all_iff) (metis set_takeWhileD)
  moreover have "list_all isWhiteSpace ?suf"
    by (simp add: list_all_iff) (metis set_takeWhileD)
  ultimately show ?thesis by blast
qed

lemma trim_ends:
  "trim s = [] \<or> (\<not> isWhiteSpace (hd (trim s)) \<and> \<not> isWhiteSpace (last (trim s)))"
proof (cases "trim s = []")
  case True
  then show ?thesis by simp
next
  case False
  let ?mid = "dropWhile isWhiteSpace s"
  let ?r = "dropWhile isWhiteSpace (rev ?mid)"
  from False have r: "?r \<noteq> []" by (simp add: trim_def)
  then have "\<not> isWhiteSpace (hd ?r)" by (rule hd_dropWhile)
  with r have l: "\<not> isWhiteSpace (last (trim s))" by (simp add: trim_def last_rev)
  have mid: "?mid \<noteq> []"
    using r by (metis dropWhile.simps(1) rev.simps(1))
  then have h: "\<not> isWhiteSpace (hd ?mid)" by (rule hd_dropWhile)
  have "?mid = trim s @ rev (takeWhile isWhiteSpace (rev ?mid))"
    unfolding trim_def by (rule rev_dropWhile_split)
  with False have "hd (trim s) = hd ?mid" by (metis hd_append2)
  with h l show ?thesis by simp
qed

text \<open>
  C4. The sanitizer returns the empty string for \<open>null\<close>, and for a string the result of
  removing the tags and then trimming. Removing the tags: where no \<open><\<close> comes before it,
  a \<open><\<close> with the text up to the next \<open>>\<close> is removed and the removal goes on behind that
  \<open>>\<close>; a string in which no \<open><\<close> is followed by a \<open>>\<close> is left as it is; and in the
  result no \<open><\<close> is followed by a \<open>>\<close>. Trimming removes a prefix and a suffix of white
  space, and what is left neither starts nor ends with white space. The summary
  \<open><p>annyeong <b>segye</b></p>\<close>, written in Hangul, gives the two words with the space
  between them.
\<close>

theorem C4_strip_tags_then_trim:
  "stripHtmlTags None = []
   \<and> stripHtmlTags (Some h) = trim (replace_tags h)
   \<and> (0x3C \<notin> set a \<and> 0x3E \<notin> set t
        \<longrightarrow> replace_tags (a @ 0x3C # t @ 0x3E # b) = a @ replace_tags b)
   \<and> ((\<nexists>a t b. h = a @ 0x3C # t @ 0x3E # b) \<longrightarrow> replace_tags h = h)
   \<and> (\<nexists>a t b. replace_tags h = a @ 0x3C # t @ 0x3E # b)
   \<and> (\<exists>pre suf. x = pre @ trim x @ suf \<and> list_all isWhiteSpace pre \<and> list_all isWhiteSpace suf)
   \<and> (trim x = [] \<or> (\<not> isWhiteSpace (hd (trim x)) \<and> \<not> isWhiteSpace (last (trim x))))
   \<and> stripHtmlTags (Some (ascii ''<p>'' @ [0xC548, 0xB155, 0x20] @ ascii ''<b>'' @ [0xC138, 0xACC4]
          @ ascii ''</b></p>''))
       = [0xC548, 0xB155, 0x20, 0xC138, 0xACC4]"
proof (intro conjI)
  show "stripHtmlTags None = []" by (simp add: stripHtmlTags_def)
  show "stripHtmlTags (Some h) = trim (replace_tags h)"
    by (simp add: stripHtmlTags_def trim_def)
  show "0x3C \<notin> set a \<and> 0x3E \<notin> set t
        \<longrightarrow> replace_tags (a @ 0x3C # t @ 0x3E # b) = a @ replace_tags b"
    by (simp add: replace_tags_first)
  show "(\<nexists>a t b. h = a @ 0x3C # t @ 0x3E # b) \<longrightarrow> replace_tags h = h"
    using replace_tags_keep [of h] unfolding has_tag_iff by blast
  show "\<nexists>a t b. replace_tags h = a @ 0x3C # t @ 0x3E # b"
    using replace_tags_no_tag [of h] unfolding has_tag_iff .
  show "\<exists>pre suf. x = pre @ trim x @ suf \<and> list_all isWhiteSpace pre \<and> list_all isWhiteSpace suf"
    by (rule trim_decomp)
  show "trim x = [] \<or> (\<not> isWhiteSpace (hd (trim x)) \<and> \<not> isWhiteSpace (last (trim x)))"
    by (rule trim_ends)
  show "stripHtmlTags (Some (ascii ''<p>'' @ [0xC548, 0xB155, 0x20] @ ascii ''<b>'' @ [0xC138, 0xACC4]
          @ ascii ''</b></p>''))
       = [0xC548, 0xB155, 0x20, 0xC138, 0xACC4]"
    by (simp add: stripHtmlTags_def ascii_def trim_def isWhiteSpace_def)
qed

theorem C4_strip_tags_then_trim_witness:
  "0x3C \<notin> set (ascii ''x'') \<and> 0x3E \<notin> set (ascii ''p'')
   \<and> replace_tags (ascii ''x'' @ 0x3C # ascii ''p'' @ 0x3E # ascii ''y<'')
       = ascii ''x'' @ replace_tags (ascii ''y<'')
   \<and> \<not> has_tag (ascii ''a > b <'')
   \<and> replace_tags (ascii ''a > b <'') = ascii ''a > b <''"
proof -
  have pre: "0x3C \<notin> set (ascii ''x'') \<and> 0x3E \<notin> set (ascii ''p'')"
    by (simp add: ascii_def)
  have none: "\<not> has_tag (ascii ''a > b <'')"
    by (simp add: ascii_def)
  then have none': "\<nexists>a t b. ascii ''a > b <'' = a @ 0x3C # t @ 0x3E # b"
    unfolding has_tag_iff .
  note inst = C4_strip_tags_then_trim
    [of "ascii ''a > b <''" "ascii ''x''" "ascii ''p''" "ascii ''y<''" "[]"]
  from inst pre have "replace_tags (ascii ''x'' @ 0x3C # ascii ''p'' @ 0x3E # ascii ''y<'')
       = ascii ''x'' @ replace_tags (ascii ''y<'')"
    by blast
  moreover from inst none' have "replace_tags (ascii ''a > b <'') = ascii ''a > b <''"
    by blast
  ultimately show ?thesis using pre none by blast
qed

section \<open>Calendar arithmetic\<close>

lemma le_div_iff_int:
  fixes c :: int
  assumes "0 < c"
  shows "(k \<le> t div c) = (c * k \<le> t)"
proof
  assume "k \<le> t div c"
  with assms have "c * k \<le> c * (t div c)" by simp
  also have "\<dots> = t - t mod c" by (simp add: minus_mod_eq_mult_div)
  also from assms have "\<dots> \<le> t" by simp
  finally show "c * k \<le> t" .
next
  assume "c * k \<le> t"
  with assms have "(c * k) div c \<le> t div c" by (intro zdiv_mono1)
  with assms show "k \<le> t div c" by simp
qed

lemma div_bounds_int:
  fixes c :: int
  assumes "0 < c"
  shows "c * (x div c) \<le> x" and "x < c * (x div c) + c"
proof -
  have "x = c * (x div c) + x mod c" by simp
  moreover from assms have "0 \<le> x mod c" "x mod c < c" by simp_all
  ultimately show "c * (x div c) \<le> x" and "x < c * (x div c) + c" by linarith+
qed

lemma div_step_int:
  fixes c :: int
  assumes "0 < c"
  shows "(x + 1) div c = x div c + (if c dvd (x + 1) then 1 else 0)"
proof (cases "x mod c + 1 < c")
  case True
  have split: "x + 1 = c * (x div c) + (x mod c + 1)" by simp
  from int_div_pos_eq [OF split _ True] assms have d: "(x + 1) div c = x div c" by simp
  from int_mod_pos_eq [OF split _ True] assms have "(x + 1) mod c = x mod c + 1" by simp
  with assms have "\<not> c dvd (x + 1)" by (simp add: dvd_eq_mod_eq_0 add_nonneg_eq_0_iff)
  with d show ?thesis by simp
next
  case False
  with assms have r: "x mod c = c - 1" using pos_mod_bound [of c x] by linarith
  have e: "x + 1 = c * (x div c + 1)"
    using div_mult_mod_eq [of x c] r by (simp add: algebra_simps)
  then have "c dvd (x + 1)" by simp
  moreover from e assms have "(x + 1) div c = x div c + 1" by simp
  ultimately show ?thesis by simp
qed

lemma DayFromYear_step: "DayFromYear (y + 1) = DayFromYear y + DaysInYear y"
proof -
  have a: "(y + 1 - 1969) div 4 = (y - 1969) div 4 + (if 4 dvd y then 1 else 0)"
    using div_step_int [of 4 "y - 1969"] by (simp add: dvd_diff_left_iff)
  have b: "(y + 1 - 1901) div 100 = (y - 1901) div 100 + (if 100 dvd y then 1 else 0)"
    using div_step_int [of 100 "y - 1901"] by (simp add: dvd_diff_left_iff)
  have c: "(y + 1 - 1601) div 400 = (y - 1601) div 400 + (if 400 dvd y then 1 else 0)"
    using div_step_int [of 400 "y - 1601"] by (simp add: dvd_diff_left_iff)
  have d: "400 dvd y \<Longrightarrow> 100 dvd y" "100 dvd y \<Longrightarrow> 4 dvd y"
    by (rule dvd_trans [of 100 400], simp_all)  (rule dvd_trans [of 4 100], simp_all)
  show ?thesis
    unfolding DayFromYear_def DaysInYear_def a b c mod_eq_0_iff_dvd using d by auto
qed

lemma DaysInYear_cases: "DaysInYear y = 365 \<or> DaysInYear y = 366"
  by (simp add: DaysInYear_def)

lemma le_Day_iff: "(k \<le> Day t) = (msPerDay * k \<le> t)"
  unfolding Day_def by (rule le_div_iff_int) (simp add: msPerDay_def)

lemma TimeFromYear_le_iff: "(TimeFromYear y \<le> t) = (DayFromYear y \<le> Day t)"
  by (simp add: TimeFromYear_def le_Day_iff)

lemma DayFromYear_mono_nat: "DayFromYear y + 365 * int n \<le> DayFromYear (y + int n)"
proof (induction n)
  case 0
  show ?case by simp
next
  case (Suc n)
  have "DayFromYear (y + int (Suc n)) = DayFromYear (y + int n) + DaysInYear (y + int n)"
    using DayFromYear_step [of "y + int n"] by (simp add: algebra_simps)
  with Suc DaysInYear_cases [of "y + int n"] show ?case by auto
qed

lemma DayFromYear_strict_mono: "a < b \<Longrightarrow> DayFromYear a < DayFromYear b"
  using DayFromYear_mono_nat [of a "nat (b - a)"] by simp

lemma DayFromYear_mono: "a \<le> b \<Longrightarrow> DayFromYear a \<le> DayFromYear b"
  using DayFromYear_strict_mono [of a b] by (cases "a = b") auto

lemma DayFromYear_estimate:
  "400 * DayFromYear (1970 + j) \<le> 146097 * j + 589"
  "146097 * j - 506 \<le> 400 * DayFromYear (1970 + j)"
proof -
  define a b c where "a = (j + 1) div 4" and "b = (j + 69) div 100" and "c = (j + 369) div 400"
  have a: "4 * a \<le> j + 1" "j + 1 < 4 * a + 4"
    unfolding a_def by (rule div_bounds_int; simp)+
  have b: "100 * b \<le> j + 69" "j + 69 < 100 * b + 100"
    unfolding b_def by (rule div_bounds_int; simp)+
  have c: "400 * c \<le> j + 369" "j + 369 < 400 * c + 400"
    unfolding c_def by (rule div_bounds_int; simp)+
  have eq: "DayFromYear (1970 + j) = 365 * j + a - b + c"
    by (simp add: DayFromYear_def a_def b_def c_def add.commute)
  from a b c show "400 * DayFromYear (1970 + j) \<le> 146097 * j + 589"
    unfolding eq by simp
  from a b c show "146097 * j - 506 \<le> 400 * DayFromYear (1970 + j)"
    unfolding eq by simp
qed

lemma year_estimate:
  fixes d :: int
  defines "y0 \<equiv> 1970 + (400 * d) div 146097"
  shows "DayFromYear (y0 - 1) \<le> d" and "d < DayFromYear (y0 + 2)"
proof -
  define k where "k = (400 * d) div 146097"
  have k: "146097 * k \<le> 400 * d" "400 * d < 146097 * k + 146097"
    unfolding k_def by (rule div_bounds_int; simp)+
  have y0: "y0 = 1970 + k" by (simp add: y0_def k_def)
  from DayFromYear_estimate(1) [of "k - 1"] k show "DayFromYear (y0 - 1) \<le> d"
    by (simp add: y0)
  from DayFromYear_estimate(2) [of "k + 2"] k show "d < DayFromYear (y0 + 2)"
    by (simp add: y0 algebra_simps)
qed

lemma YearFromTime_spec:
  "DayFromYear (YearFromTime t) \<le> Day t \<and> Day t < DayFromYear (YearFromTime t + 1)"
  using year_estimate [of "Day t"]
  by (auto simp: YearFromTime_def Let_def TimeFromYear_le_iff)

lemma YearFromTime_unique:
  assumes "DayFromYear y \<le> Day t" and "Day t < DayFromYear (y + 1)"
  shows "YearFromTime t = y"
proof (rule ccontr)
  assume ne: "YearFromTime t \<noteq> y"
  let ?y = "YearFromTime t"
  from YearFromTime_spec [of t] have s: "DayFromYear ?y \<le> Day t" "Day t < DayFromYear (?y + 1)"
    by simp_all
  show False
  proof (cases "?y < y")
    case True
    then have "DayFromYear (?y + 1) \<le> DayFromYear y" by (intro DayFromYear_mono) simp
    with s assms show False by simp
  next
    case False
    with ne have "DayFromYear (y + 1) \<le> DayFromYear ?y" by (intro DayFromYear_mono) simp
    with s assms show False by simp
  qed
qed



lemma Day_MakeDate: "0 \<le> tod \<Longrightarrow> tod < msPerDay \<Longrightarrow> Day (MakeDate day tod) = day"
proof -
  assume a: "0 \<le> tod" "tod < msPerDay"
  have "MakeDate day tod = msPerDay * day + tod" by (simp add: MakeDate_def)
  from int_div_pos_eq [OF this a] show ?thesis by (simp add: Day_def)
qed

lemma month_cases:
  "0 \<le> (mn::int) \<Longrightarrow> mn \<le> 11 \<Longrightarrow>
   mn = 0 \<or> mn = 1 \<or> mn = 2 \<or> mn = 3 \<or> mn = 4 \<or> mn = 5 \<or> mn = 6 \<or> mn = 7 \<or> mn = 8
   \<or> mn = 9 \<or> mn = 10 \<or> mn = 11"
  by arith

lemma month_table:
  assumes "leap = 0 \<or> leap = 1" and "0 \<le> mn" and "mn \<le> 11"
    and "1 \<le> dt" and "dt \<le> month_length leap (mn + 1)"
  shows "0 \<le> first_day_of_month leap mn + dt - 1"
    and "first_day_of_month leap mn + dt - 1 < 365 + leap"
    and "month_of_day (first_day_of_month leap mn + dt - 1) leap = mn"
    and "date_of_day (first_day_of_month leap mn + dt - 1) leap mn = dt"
  using month_cases [OF assms(2,3)] assms(1,4,5)
  by (elim disjE; simp add: first_day_of_month_def month_length_def month_of_day_def date_of_day_def)+

lemma leap_days_cases: "leap_days y = 0 \<or> leap_days y = 1"
  by (simp add: leap_days_def)

lemma DaysInYear_leap: "DaysInYear y = 365 + leap_days y"
  using DaysInYear_cases [of y] by (auto simp: leap_days_def)

lemma civil_of_MakeDay:
  assumes mn: "0 \<le> mn" "mn \<le> 11"
    and dt: "1 \<le> dt" "dt \<le> days_in_month y (mn + 1)"
    and day: "Day t = MakeDay y mn dt"
  shows "YearFromTime t = y" and "MonthFromTime t = mn" and "DateFromTime t = dt"
proof -
  note tab = month_table [OF leap_days_cases mn dt [unfolded days_in_month_def]]
  have md: "MakeDay y mn dt = DayFromYear y + (first_day_of_month (leap_days y) mn + dt - 1)"
    using mn by (simp add: MakeDay_def Let_def)
  have "DayFromYear y \<le> Day t" "Day t < DayFromYear (y + 1)"
    using tab(1,2) by (simp_all add: day md DayFromYear_step DaysInYear_leap)
  then show y: "YearFromTime t = y" by (rule YearFromTime_unique)
  have dwy: "DayWithinYear t = first_day_of_month (leap_days y) mn + dt - 1"
    by (simp add: DayWithinYear_def y day md)
  have leap: "InLeapYear t = leap_days y"
    by (simp add: InLeapYear_def leap_days_def y)
  show m: "MonthFromTime t = mn"
    by (simp add: MonthFromTime_def dwy leap tab(3))
  show "DateFromTime t = dt"
    by (simp add: DateFromTime_def m dwy leap tab(4))
qed


lemma formatDate_of_time:
  "new_Date env s = Some t \<Longrightarrow>
   formatDate env s =
     date_text (YearFromTime (LocalTime env t)) (MonthFromTime (LocalTime env t) + 1)
       (DateFromTime (LocalTime env t))"
  by (simp add: formatDate_def getFullYear_def getMonth_def getDate_def date_text_def)

lemma new_Date_fields:
  "parse_iso s = Some f \<Longrightarrow> in_bounds f \<Longrightarrow> \<bar>fields_time env f\<bar> \<le> 8640000000000000 \<Longrightarrow>
   new_Date env s = Some (fields_time env f)"
  by (simp add: new_Date_def Date_parse_def TimeClip_def)

lemma fields_time_written: "fields_time env f = written_time f - input_offset env f"
  by (cases "f_zone f")
     (simp_all add: fields_time_def written_time_def input_offset_def UTC_def Let_def)

lemma LocalTime_fields:
  "LocalTime env (fields_time env f) =
     MakeDate (MakeDay (f_year f) (f_month f - 1) (f_day f))
       (MakeTime (f_hour f) (f_minute f) (f_second f) (f_ms f) + clock_shift env f)"
proof -
  have "LocalTime env (fields_time env f) = written_time f + clock_shift env f"
    unfolding LocalTime_def clock_shift_def
    by (simp add: fields_time_written [symmetric])
  then show ?thesis by (simp add: written_time_def MakeDate_def)
qed

lemma clock_shift_fixed_zone:
  assumes "\<forall>t b. LocalTZA env t b = z"
  shows "clock_shift env f =
     (case f_zone f of
        Offset sign h m \<Rightarrow> z - offset_minutes (Offset sign h m) * msPerMinute
      | Local \<Rightarrow> if f_date_only f then z else 0)"
  using assms by (cases "f_zone f") (simp_all add: clock_shift_def input_offset_def)

lemma DayFromYear_four_digits:
  assumes "0 \<le> y" and "y \<le> 9999"
  shows "- 719528 \<le> DayFromYear y" and "DayFromYear y \<le> 2932532"
proof -
  have "DayFromYear 0 = - 719528" "DayFromYear 9999 = 2932532"
    by (simp_all add: DayFromYear_def)
  with DayFromYear_mono [OF assms(1)] DayFromYear_mono [OF assms(2)]
  show "- 719528 \<le> DayFromYear y" and "DayFromYear y \<le> 2932532" by simp_all
qed

lemma formatDate_same_day:
  assumes parse: "parse_iso s = Some f" and bounds: "in_bounds f"
    and real_day: "f_day f \<le> days_in_month (f_year f) (f_month f)"
    and range: "\<bar>fields_time env f\<bar> \<le> 8640000000000000
         \<or> (0 \<le> f_year f \<and> f_year f \<le> 9999
             \<and> \<bar>LocalTZA env (fields_time env f) True\<bar> \<le> msPerDay)"
    and same_day:
      "0 \<le> MakeTime (f_hour f) (f_minute f) (f_second f) (f_ms f) + clock_shift env f"
      "MakeTime (f_hour f) (f_minute f) (f_second f) (f_ms f) + clock_shift env f < msPerDay"
  shows "formatDate env s = date_text (f_year f) (f_month f) (f_day f)"
proof -
  let ?day = "MakeDay (f_year f) (f_month f - 1) (f_day f)"
  let ?tod = "MakeTime (f_hour f) (f_minute f) (f_second f) (f_ms f) + clock_shift env f"
  let ?t = "fields_time env f"
  have mn: "0 \<le> f_month f - 1" "f_month f - 1 \<le> 11" and dt: "1 \<le> f_day f"
    using bounds by (simp_all add: in_bounds_def)
  have real_day': "f_day f \<le> days_in_month (f_year f) (f_month f - 1 + 1)"
    using real_day by simp
  have lt: "LocalTime env ?t = MakeDate ?day ?tod" by (rule LocalTime_fields)
  have day: "Day (LocalTime env ?t) = ?day"
    unfolding lt by (rule Day_MakeDate [OF same_day])
  note civil = civil_of_MakeDay [OF mn dt real_day' day]
  note tab = month_table [OF leap_days_cases mn dt real_day' [unfolded days_in_month_def]]
  have "\<bar>?t\<bar> \<le> 8640000000000000"
  proof (cases "\<bar>?t\<bar> \<le> 8640000000000000")
    case True
    then show ?thesis .
  next
    case False
    with range have year: "0 \<le> f_year f" "f_year f \<le> 9999"
      and off: "\<bar>LocalTZA env ?t True\<bar> \<le> msPerDay"
      by simp_all
    have "?day = DayFromYear (f_year f)
            + (first_day_of_month (leap_days (f_year f)) (f_month f - 1) + f_day f - 1)"
      using mn by (simp add: MakeDay_def Let_def)
    with tab(1,2) DayFromYear_four_digits [OF year] leap_days_cases [of "f_year f"]
    have dayb: "- 719528 \<le> ?day" "?day \<le> 2932532 + 366" by auto
    have "?t = MakeDate ?day ?tod - LocalTZA env ?t True"
      using lt by (simp add: LocalTime_def)
    then show ?thesis
      using dayb same_day off by (simp add: MakeDate_def msPerDay_def)
  qed
  from new_Date_fields [OF parse bounds this]
  have "new_Date env s = Some ?t" .
  from formatDate_of_time [OF this] show ?thesis by (simp add: civil)
qed

subsection \<open>Fields of a parsed string\<close>

lemma digit_value_range: "is_digit c \<Longrightarrow> 0 \<le> digit_value c \<and> digit_value c \<le> 9"
  by (simp add: is_digit_def digit_value_def word_le_def)

lemma read2_range: "read2 s = Some (n, r) \<Longrightarrow> 0 \<le> n \<and> n \<le> 99"
proof (cases s rule: read2.cases)
  case (1 a b rest)
  assume "read2 s = Some (n, r)"
  with 1 have d: "is_digit a" "is_digit b" and n: "n = 10 * digit_value a + digit_value b"
    by (auto split: if_splits)
  from digit_value_range [OF d(1)] digit_value_range [OF d(2)] n show ?thesis by simp
qed simp_all

lemma read3_range: "read3 s = Some (n, r) \<Longrightarrow> 0 \<le> n \<and> n \<le> 999"
proof (cases s)
  case Nil
  assume "read3 s = Some (n, r)"
  with Nil show ?thesis by simp
next
  case (Cons a rest)
  assume "read3 s = Some (n, r)"
  with Cons obtain k r' where d: "is_digit a" and k: "read2 rest = Some (k, r')"
    and n: "n = 100 * digit_value a + k"
    by (auto split: if_splits option.splits)
  from digit_value_range [OF d] read2_range [OF k] n show ?thesis by simp
qed

lemma parse_seconds_range:
  "parse_seconds s = Some (sec, ms, r) \<Longrightarrow> 0 \<le> sec \<and> 0 \<le> ms \<and> ms \<le> 999"
  by (auto simp: parse_seconds_def split: option.splits dest!: read2_range read3_range)

lemma parse_time_range:
  "parse_time s = Some (h, m, sec, ms, z) \<Longrightarrow> 0 \<le> h \<and> 0 \<le> m \<and> 0 \<le> sec \<and> 0 \<le> ms \<and> ms \<le> 999"
  by (auto simp: parse_time_def split: option.splits dest!: read2_range parse_seconds_range)

lemma parse_iso_time_range:
  assumes "parse_iso s = Some f"
  shows "0 \<le> f_hour f \<and> 0 \<le> f_minute f \<and> 0 \<le> f_second f \<and> 0 \<le> f_ms f \<and> f_ms f \<le> 999"
  using assms
  by (auto simp: parse_iso_def split: option.splits if_splits dest!: parse_time_range)

lemma parse_iso_date_only:
  assumes "parse_iso s = Some f" and "f_date_only f"
  shows "f_hour f = 0 \<and> f_minute f = 0 \<and> f_second f = 0 \<and> f_ms f = 0 \<and> f_zone f = Local"
  using assms
  by (auto simp: parse_iso_def split: option.splits if_splits)

lemma MakeTime_within_day:
  assumes "parse_iso s = Some f" and "in_bounds f" and "f_hour f \<le> 23"
  shows "0 \<le> MakeTime (f_hour f) (f_minute f) (f_second f) (f_ms f)"
    and "MakeTime (f_hour f) (f_minute f) (f_second f) (f_ms f) < msPerDay"
  using parse_iso_time_range [OF assms(1)] assms(2,3)
  by (auto simp: MakeTime_def in_bounds_def msPerHour_def msPerMinute_def msPerSecond_def msPerDay_def)

lemma formatDate_local_datetime:
  assumes "parse_iso s = Some f" and "in_bounds f"
    and "f_day f \<le> days_in_month (f_year f) (f_month f)"
    and "\<bar>fields_time env f\<bar> \<le> 8640000000000000
         \<or> (0 \<le> f_year f \<and> f_year f \<le> 9999
             \<and> \<bar>LocalTZA env (fields_time env f) True\<bar> \<le> msPerDay)"
    and "\<not> f_date_only f" and "f_zone f = Local" and "f_hour f \<le> 23"
    and "LocalTZA env (fields_time env f) True = LocalTZA env (written_time f) False"
  shows "formatDate env s = date_text (f_year f) (f_month f) (f_day f)"
proof (rule formatDate_same_day [OF assms(1-4)])
  have "clock_shift env f = 0"
    using assms(5,6,8) by (simp add: clock_shift_def input_offset_def)
  with MakeTime_within_day [OF assms(1,2,7)]
  show "0 \<le> MakeTime (f_hour f) (f_minute f) (f_second f) (f_ms f) + clock_shift env f"
    and "MakeTime (f_hour f) (f_minute f) (f_second f) (f_ms f) + clock_shift env f < msPerDay"
    by simp_all
qed

lemma formatDate_date_only:
  assumes "parse_iso s = Some f" and "in_bounds f"
    and "f_day f \<le> days_in_month (f_year f) (f_month f)"
    and "\<bar>fields_time env f\<bar> \<le> 8640000000000000
         \<or> (0 \<le> f_year f \<and> f_year f \<le> 9999
             \<and> \<bar>LocalTZA env (fields_time env f) True\<bar> \<le> msPerDay)"
    and "f_date_only f"
    and "0 \<le> LocalTZA env (written_time f) True" and "LocalTZA env (written_time f) True < msPerDay"
  shows "formatDate env s = date_text (f_year f) (f_month f) (f_day f)"
proof -
  note only = parse_iso_date_only [OF assms(1,5)]
  have io: "input_offset env f = 0"
    using only assms(5) by (simp add: input_offset_def)
  then have ft: "fields_time env f = written_time f"
    by (simp add: fields_time_written)
  have cs: "clock_shift env f = LocalTZA env (written_time f) True"
    by (simp add: clock_shift_def io ft)
  have t: "MakeTime (f_hour f) (f_minute f) (f_second f) (f_ms f) = 0"
    using only by (simp add: MakeTime_def)
  show ?thesis
  proof (rule formatDate_same_day [OF assms(1-4)])
    show "0 \<le> MakeTime (f_hour f) (f_minute f) (f_second f) (f_ms f) + clock_shift env f"
      and "MakeTime (f_hour f) (f_minute f) (f_second f) (f_ms f) + clock_shift env f < msPerDay"
      using assms(6,7) by (simp_all add: t cs)
  qed
qed

lemma parse_example:
  "parse_iso (ascii ''2024-01-15T08:00:00Z'')
     = Some \<lparr>f_year = 2024, f_month = 1, f_day = 15, f_hour = 8, f_minute = 0, f_second = 0,
              f_ms = 0, f_date_only = False, f_zone = Offset 1 0 0\<rparr>"
  by code_simp

lemma formatDate_example:
  assumes "- 28800000 \<le> LocalTZA env 1705305600000 True"
    and "LocalTZA env 1705305600000 True < 57600000"
  shows "formatDate env (ascii ''2024-01-15T08:00:00Z'') = ascii ''2024.01.15''"
proof -
  let ?f = "\<lparr>f_year = 2024, f_month = 1, f_day = 15, f_hour = 8, f_minute = 0, f_second = 0,
              f_ms = 0, f_date_only = False, f_zone = Offset 1 0 0\<rparr>"
  have ft: "fields_time env ?f = 1705305600000"
    by (simp add: fields_time_def MakeDate_def MakeDay_def MakeTime_def DayFromYear_def
          first_day_of_month_def leap_days_def DaysInYear_def msPerDay_def msPerHour_def
          msPerMinute_def msPerSecond_def Let_def)
  have cs: "clock_shift env ?f = LocalTZA env 1705305600000 True"
    by (simp add: clock_shift_def input_offset_def ft)
  have "formatDate env (ascii ''2024-01-15T08:00:00Z'')
          = date_text (f_year ?f) (f_month ?f) (f_day ?f)"
  proof (rule formatDate_same_day [OF parse_example])
    show "in_bounds ?f" by (simp add: in_bounds_def)
    show "f_day ?f \<le> days_in_month (f_year ?f) (f_month ?f)"
      by (simp add: days_in_month_def month_length_def)
    show "\<bar>fields_time env ?f\<bar> \<le> 8640000000000000
         \<or> (0 \<le> f_year ?f \<and> f_year ?f \<le> 9999
             \<and> \<bar>LocalTZA env (fields_time env ?f) True\<bar> \<le> msPerDay)"
      by (simp add: ft)
    show "0 \<le> MakeTime (f_hour ?f) (f_minute ?f) (f_second ?f) (f_ms ?f) + clock_shift env ?f"
      and "MakeTime (f_hour ?f) (f_minute ?f) (f_second ?f) (f_ms ?f) + clock_shift env ?f < msPerDay"
      using assms
      by (simp_all add: cs MakeTime_def msPerHour_def msPerMinute_def msPerSecond_def msPerDay_def)
  qed
  moreover have "date_text 2024 1 15 = ascii ''2024.01.15''" by code_simp
  ultimately show ?thesis by simp
qed

subsection \<open>Numbers as text\<close>

lemma digits_of_small: "n < 10 \<Longrightarrow> digits_of n = [of_nat (48 + n)]"
  by (subst digits_of.simps) simp

lemma digits_of_large: "10 \<le> n \<Longrightarrow> digits_of n = digits_of (n div 10) @ [of_nat (48 + n mod 10)]"
  by (subst digits_of.simps) simp

lemma digit_nat:
  assumes "is_digit c"
  shows "nat (digit_value c) < 10" and "(of_nat (48 + nat (digit_value c)) :: 16 word) = c"
proof -
  from assms have r: "48 \<le> uint c" "uint c \<le> 57"
    by (simp_all add: is_digit_def word_le_def)
  then show "nat (digit_value c) < 10" by (simp add: digit_value_def)
  have "unat c = nat (uint c)" by (rule unat_eq_nat_uint)
  with r have "48 + nat (digit_value c) = unat c"
    unfolding digit_value_def by linarith
  then show "(of_nat (48 + nat (digit_value c)) :: 16 word) = c"
    by (simp only: of_nat_unat unsigned_word_eqI) simp
qed

lemma digits_of_append_digit:
  assumes "0 < n" and "d < 10"
  shows "digits_of (10 * n + d) = digits_of n @ [of_nat (48 + d)]"
proof -
  from assms have "10 \<le> 10 * n + d" by simp
  from digits_of_large [OF this] assms show ?thesis by simp
qed

lemma two_digits_text:
  assumes "is_digit a" and "is_digit b"
  shows "padStart 2 0x30 (number_to_string (Some (10 * digit_value a + digit_value b))) = [a, b]"
proof -
  let ?A = "nat (digit_value a)" and ?B = "nat (digit_value b)"
  from digit_value_range [OF assms(1)] digit_value_range [OF assms(2)]
  have nn: "0 \<le> digit_value a" "0 \<le> digit_value b" by simp_all
  then have n: "nat (10 * digit_value a + digit_value b) = 10 * ?A + ?B"
    by (simp add: nat_add_distrib nat_mult_distrib)
  have s: "number_to_string (Some (10 * digit_value a + digit_value b)) = digits_of (10 * ?A + ?B)"
    using nn by (simp add: number_to_string_def n)
  show ?thesis
  proof (cases "?A = 0")
    case True
    then have "digit_value a = 0" using nn by simp
    then have "uint a = 48" by (simp add: digit_value_def)
    then have "uint a = uint (0x30 :: 16 word)" by simp
    then have a: "a = 0x30" by (simp only: word_uint_eq_iff)
    from True have "digits_of (10 * ?A + ?B) = [b]"
      using digit_nat [OF assms(2)] by (simp add: digits_of_small)
    with s a show ?thesis by (simp add: padStart_def)
  next
    case False
    then have "digits_of (10 * ?A + ?B) = digits_of ?A @ [b]"
      using digit_nat [OF assms(2)] by (simp add: digits_of_append_digit)
    also have "digits_of ?A = [a]"
      using digit_nat [OF assms(1)] by (simp add: digits_of_small)
    finally show ?thesis using s by (simp add: padStart_def)
  qed
qed

lemma four_digits_text:
  assumes "is_digit a" and "is_digit b" and "is_digit c" and "is_digit d"
    and "1000 \<le> 100 * (10 * digit_value a + digit_value b) + (10 * digit_value c + digit_value d)"
  shows "number_to_string
           (Some (100 * (10 * digit_value a + digit_value b) + (10 * digit_value c + digit_value d)))
         = [a, b, c, d]"
proof -
  let ?A = "nat (digit_value a)" and ?B = "nat (digit_value b)"
  let ?C = "nat (digit_value c)" and ?D = "nat (digit_value d)"
  from digit_value_range [OF assms(1)] digit_value_range [OF assms(2)]
    digit_value_range [OF assms(3)] digit_value_range [OF assms(4)]
  have nn: "0 \<le> digit_value a" "0 \<le> digit_value b" "0 \<le> digit_value c" "0 \<le> digit_value d"
    and le: "digit_value b \<le> 9" "digit_value c \<le> 9" "digit_value d \<le> 9"
    by simp_all
  with assms(5) have a1: "0 < ?A" by simp
  have n: "nat (100 * (10 * digit_value a + digit_value b) + (10 * digit_value c + digit_value d))
             = 10 * (10 * (10 * ?A + ?B) + ?C) + ?D"
    using nn by (simp add: nat_add_distrib nat_mult_distrib)
  have 1: "digits_of ?A = [a]"
    using digit_nat [OF assms(1)] by (simp only: digits_of_small)
  from a1 have 2: "digits_of (10 * ?A + ?B) = [a, b]"
    using digit_nat [OF assms(2)] by (simp only: digits_of_append_digit 1) simp
  have "0 < 10 * ?A + ?B" using a1 by simp
  then have 3: "digits_of (10 * (10 * ?A + ?B) + ?C) = [a, b, c]"
    using digit_nat [OF assms(3)] by (simp only: digits_of_append_digit 2) simp
  have "0 < 10 * (10 * ?A + ?B) + ?C" using a1 by simp
  then have 4: "digits_of (10 * (10 * (10 * ?A + ?B) + ?C) + ?D) = [a, b, c, d]"
    using digit_nat [OF assms(4)] by (simp only: digits_of_append_digit 3) simp
  from nn have "\<not> 100 * (10 * digit_value a + digit_value b) + (10 * digit_value c + digit_value d) < 0"
    by simp
  then show ?thesis by (simp only: number_to_string_def option.case if_False n 4)
qed

lemma length2E: "length m = 2 \<Longrightarrow> \<exists>a b. m = [a, b]"
  by (auto simp: numeral_2_eq_2 length_Suc_conv)

lemma length4E: "length y = 4 \<Longrightarrow> \<exists>a b c d. y = [a, b, c, d]"
  by (auto simp: numeral_eq_Suc length_Suc_conv)

lemma not_digit_hyphen: "\<not> is_digit 0x2D"
  by (simp add: is_digit_def)

lemma parse_date_full:
  assumes "parse_date (a # b # c # d # 0x2D # e # g # 0x2D # h # i # rest) = Some (y, mo, dd, r)"
  shows "is_digit a \<and> is_digit b \<and> is_digit c \<and> is_digit d \<and> is_digit e \<and> is_digit g
         \<and> is_digit h \<and> is_digit i
         \<and> y = 100 * (10 * digit_value a + digit_value b) + (10 * digit_value c + digit_value d)
         \<and> mo = 10 * digit_value e + digit_value g \<and> dd = 10 * digit_value h + digit_value i"
  using assms
  by (auto simp: parse_date_def parse_year_def read4_def read6_def not_digit_hyphen
        split: if_splits option.splits)

lemma date_text_written:
  assumes parse: "parse_iso (y @ 0x2D # m @ 0x2D # d @ rest) = Some f"
    and form: "length y = 4" "length m = 2" "length d = 2"
    and year: "1000 \<le> f_year f"
  shows "date_text (f_year f) (f_month f) (f_day f) = y @ [0x2E] @ m @ [0x2E] @ d"
proof -
  from length4E [OF form(1)] obtain a b c e where y: "y = [a, b, c, e]" by blast
  from length2E [OF form(2)] obtain g h where m: "m = [g, h]" by blast
  from length2E [OF form(3)] obtain i j where d: "d = [i, j]" by blast
  let ?s = "a # b # c # e # 0x2D # g # h # 0x2D # i # j # rest"
  from parse have p: "parse_iso ?s = Some f" by (simp add: y m d)
  then obtain yy mo dd r where pd: "parse_date ?s = Some (yy, mo, dd, r)"
    and f: "f_year f = yy" "f_month f = mo" "f_day f = dd"
    by (auto simp: parse_iso_def split: option.splits if_splits)
  note dg = parse_date_full [OF pd]
  from dg year f have y4: "number_to_string (Some yy) = [a, b, c, e]"
    using four_digits_text [of a b c e] by simp
  from dg have m2: "padStart 2 0x30 (number_to_string (Some mo)) = [g, h]"
    using two_digits_text [of g h] by simp
  from dg have d2: "padStart 2 0x30 (number_to_string (Some dd)) = [i, j]"
    using two_digits_text [of i j] by simp
  show ?thesis by (simp add: date_text_def f y4 m2 d2 y m d)
qed

section \<open>Date of the report card\<close>

text \<open>
  C2, as the code has it. The input is in the date-time string format with its fields in
  bounds, its day exists in its month, and the instant it denotes is a time value (at
  most 8.64 * 10^15 milliseconds from 1970, which holds for every year of four digits when
  the runtime's offset from UTC is at most a day). Then \<open>formatDate\<close> returns
  the written year (in decimal, not padded), month and day (two digits each) with dots
  between them

  \<^item> whenever the time of day written in the input, moved by what the runtime's clock at
    that instant is ahead of the clock of the input, is still a time of the same day (the
    clock of the input is the written offset, UTC for a date without time, and the
    runtime's own clock at the written local time for a date with time and no offset);
  \<^item> so for every date with a time before 24:00 and no offset, when the runtime's offset
    at the instant is the one the written local time was read with (as it is away from a
    change of the offset);
  \<^item> and for every date without time when the runtime, at UTC midnight of that date, is
    on UTC or ahead of it.

  In a zone of one fixed offset the clock shift is that offset less the offset of the
  input. The input \<open>2024-01-15T08:00:00Z\<close> gives \<open>2024.01.15\<close> in every runtime whose offset
  at that instant is between -08:00 and +15:59. For an input that starts with
  \<open>YYYY-MM-DD\<close> and a year from 1000 on, the text of the written date is these same
  digits, with dots for the hyphens.
\<close>

theorem C2_formatDate_written_date_when_same_local_day:
  assumes "parse_iso s = Some f" and "in_bounds f"
    and "f_day f \<le> days_in_month (f_year f) (f_month f)"
    and "\<bar>fields_time env f\<bar> \<le> 8640000000000000
         \<or> (0 \<le> f_year f \<and> f_year f \<le> 9999
             \<and> \<bar>LocalTZA env (fields_time env f) True\<bar> \<le> msPerDay)"
  shows
    "(0 \<le> MakeTime (f_hour f) (f_minute f) (f_second f) (f_ms f) + clock_shift env f
      \<and> MakeTime (f_hour f) (f_minute f) (f_second f) (f_ms f) + clock_shift env f < msPerDay
      \<longrightarrow> formatDate env s = date_text (f_year f) (f_month f) (f_day f))
     \<and> (\<not> f_date_only f \<and> f_zone f = Local \<and> f_hour f \<le> 23
          \<and> LocalTZA env (fields_time env f) True = LocalTZA env (written_time f) False
          \<longrightarrow> formatDate env s = date_text (f_year f) (f_month f) (f_day f))
     \<and> (f_date_only f \<and> 0 \<le> LocalTZA env (written_time f) True
          \<and> LocalTZA env (written_time f) True < msPerDay
          \<longrightarrow> formatDate env s = date_text (f_year f) (f_month f) (f_day f))
     \<and> ((\<forall>t b. LocalTZA env t b = z)
          \<longrightarrow> clock_shift env f =
                (case f_zone f of
                   Offset sign h m \<Rightarrow> z - offset_minutes (Offset sign h m) * msPerMinute
                 | Local \<Rightarrow> if f_date_only f then z else 0))
     \<and> (- 28800000 \<le> LocalTZA env 1705305600000 True \<and> LocalTZA env 1705305600000 True < 57600000
          \<longrightarrow> formatDate env (ascii ''2024-01-15T08:00:00Z'') = ascii ''2024.01.15'')
     \<and> (s = y @ 0x2D # m @ 0x2D # d @ rest \<and> length y = 4 \<and> length m = 2 \<and> length d = 2
          \<and> 1000 \<le> f_year f
          \<longrightarrow> date_text (f_year f) (f_month f) (f_day f) = y @ [0x2E] @ m @ [0x2E] @ d)"
proof (intro conjI impI)
  assume "0 \<le> MakeTime (f_hour f) (f_minute f) (f_second f) (f_ms f) + clock_shift env f
      \<and> MakeTime (f_hour f) (f_minute f) (f_second f) (f_ms f) + clock_shift env f < msPerDay"
  then show "formatDate env s = date_text (f_year f) (f_month f) (f_day f)"
    using formatDate_same_day [OF assms] by blast
next
  assume "\<not> f_date_only f \<and> f_zone f = Local \<and> f_hour f \<le> 23
          \<and> LocalTZA env (fields_time env f) True = LocalTZA env (written_time f) False"
  then show "formatDate env s = date_text (f_year f) (f_month f) (f_day f)"
    using formatDate_local_datetime [OF assms] by blast
next
  assume "f_date_only f \<and> 0 \<le> LocalTZA env (written_time f) True
          \<and> LocalTZA env (written_time f) True < msPerDay"
  then show "formatDate env s = date_text (f_year f) (f_month f) (f_day f)"
    using formatDate_date_only [OF assms] by blast
next
  assume "\<forall>t b. LocalTZA env t b = z"
  then show "clock_shift env f =
                (case f_zone f of
                   Offset sign h m \<Rightarrow> z - offset_minutes (Offset sign h m) * msPerMinute
                 | Local \<Rightarrow> if f_date_only f then z else 0)"
    by (rule clock_shift_fixed_zone)
next
  assume "- 28800000 \<le> LocalTZA env 1705305600000 True \<and> LocalTZA env 1705305600000 True < 57600000"
  then show "formatDate env (ascii ''2024-01-15T08:00:00Z'') = ascii ''2024.01.15''"
    using formatDate_example [of env] by blast
next
  assume "s = y @ 0x2D # m @ 0x2D # d @ rest \<and> length y = 4 \<and> length m = 2 \<and> length d = 2
          \<and> 1000 \<le> f_year f"
  then show "date_text (f_year f) (f_month f) (f_day f) = y @ [0x2E] @ m @ [0x2E] @ d"
    using date_text_written [of y m d rest f] assms(1) by blast
qed

text \<open>
  In a runtime nine hours ahead of UTC, the input \<open>2024-01-15T08:00:00Z\<close> gives
  \<open>2024.01.15\<close>, the clock shift being nine hours; in a runtime eight hours behind UTC it
  still gives \<open>2024.01.15\<close>. In a runtime on Central European Time, in the summer, the
  inputs \<open>2024-07-01T23:30:00\<close> and \<open>2024-07-01\<close> give \<open>2024.07.01\<close>.
\<close>

theorem C2_formatDate_written_date_when_same_local_day_witness:
  "formatDate (fixed_zone 540) (ascii ''2024-01-15T08:00:00Z'') = ascii ''2024.01.15''
   \<and> clock_shift (fixed_zone 540)
        \<lparr>f_year = 2024, f_month = 1, f_day = 15, f_hour = 8, f_minute = 0, f_second = 0,
           f_ms = 0, f_date_only = False, f_zone = Offset 1 0 0\<rparr> = 32400000
   \<and> formatDate (fixed_zone (- 480)) (ascii ''2024-01-15T08:00:00Z'') = ascii ''2024.01.15''
   \<and> formatDate summer_time_zone (ascii ''2024-07-01T23:30:00'') = ascii ''2024.07.01''
   \<and> formatDate summer_time_zone (ascii ''2024-07-01'') = ascii ''2024.07.01''
   \<and> date_text 2024 7 1 = ascii ''2024'' @ [0x2E] @ ascii ''07'' @ [0x2E] @ ascii ''01''"
proof -
  let ?a = "\<lparr>f_year = 2024, f_month = 1, f_day = 15, f_hour = 8, f_minute = 0, f_second = 0,
              f_ms = 0, f_date_only = False, f_zone = Offset 1 0 0\<rparr>"
  let ?b = "\<lparr>f_year = 2024, f_month = 7, f_day = 1, f_hour = 23, f_minute = 30, f_second = 0,
              f_ms = 0, f_date_only = False, f_zone = Local\<rparr>"
  let ?c = "\<lparr>f_year = 2024, f_month = 7, f_day = 1, f_hour = 0, f_minute = 0, f_second = 0,
              f_ms = 0, f_date_only = True, f_zone = Local\<rparr>"
  have parse: "parse_iso (ascii ''2024-01-15T08:00:00Z'') = Some ?a"
    "parse_iso (ascii ''2024-07-01T23:30:00'') = Some ?b"
    "parse_iso (ascii ''2024-07-01'') = Some ?c"
    by code_simp+
  have bounds: "in_bounds ?a" "in_bounds ?b" "in_bounds ?c"
    by (simp_all add: in_bounds_def)
  have day: "f_day ?a \<le> days_in_month (f_year ?a) (f_month ?a)"
    "f_day ?b \<le> days_in_month (f_year ?b) (f_month ?b)"
    "f_day ?c \<le> days_in_month (f_year ?c) (f_month ?c)"
    by (simp_all add: days_in_month_def month_length_def)
  have fixed: "\<forall>t b. LocalTZA (fixed_zone tz) t b = tz * msPerMinute" for tz
    by (simp add: fixed_zone_def)
  have instant: "fields_time env ?a = 1705305600000" for env
    by (simp add: fields_time_def MakeDate_def MakeDay_def MakeTime_def DayFromYear_def
          first_day_of_month_def leap_days_def DaysInYear_def msPerDay_def msPerHour_def
          msPerMinute_def msPerSecond_def Let_def)
  have range_fixed: "\<bar>fields_time (fixed_zone tz) ?a\<bar> \<le> 8640000000000000
       \<or> (0 \<le> f_year ?a \<and> f_year ?a \<le> 9999
           \<and> \<bar>LocalTZA (fixed_zone tz) (fields_time (fixed_zone tz) ?a) True\<bar> \<le> msPerDay)"
    for tz
    by (simp add: instant)
  have wt: "written_time ?b = 1719876600000" "written_time ?c = 1719792000000"
    by (simp_all add: written_time_def MakeDate_def MakeDay_def MakeTime_def DayFromYear_def
          first_day_of_month_def leap_days_def DaysInYear_def msPerDay_def msPerHour_def
          msPerMinute_def msPerSecond_def Let_def)
  have io: "input_offset summer_time_zone ?b = 7200000" "input_offset summer_time_zone ?c = 0"
    by (simp_all add: input_offset_def wt summer_time_zone_def)
  have ft: "fields_time summer_time_zone ?b = 1719869400000"
    "fields_time summer_time_zone ?c = 1719792000000"
    by (simp_all add: fields_time_written wt io)
  have tza: "LocalTZA summer_time_zone 1719869400000 True = 7200000"
    "LocalTZA summer_time_zone 1719876600000 False = 7200000"
    "LocalTZA summer_time_zone 1719792000000 True = 7200000"
    by (simp_all add: summer_time_zone_def)
  have range_summer: "\<bar>fields_time summer_time_zone ?b\<bar> \<le> 8640000000000000
       \<or> (0 \<le> f_year ?b \<and> f_year ?b \<le> 9999
           \<and> \<bar>LocalTZA summer_time_zone (fields_time summer_time_zone ?b) True\<bar> \<le> msPerDay)"
    "\<bar>fields_time summer_time_zone ?c\<bar> \<le> 8640000000000000
       \<or> (0 \<le> f_year ?c \<and> f_year ?c \<le> 9999
           \<and> \<bar>LocalTZA summer_time_zone (fields_time summer_time_zone ?c) True\<bar> \<le> msPerDay)"
    by (simp_all add: ft)
  note first = C2_formatDate_written_date_when_same_local_day
         [OF parse(1) bounds(1) day(1) range_fixed [of 540], where z = "540 * msPerMinute"]
  from first fixed [of 540] have shift: "clock_shift (fixed_zone 540) ?a = 32400000"
    by (simp add: msPerMinute_def)
  with first
  have "formatDate (fixed_zone 540) (ascii ''2024-01-15T08:00:00Z'') = date_text 2024 1 15"
    by (simp add: MakeTime_def msPerHour_def msPerMinute_def msPerSecond_def msPerDay_def)
  moreover have "date_text 2024 1 15 = ascii ''2024.01.15''"
    by code_simp
  moreover
  have "- 28800000 \<le> LocalTZA (fixed_zone (- 480)) 1705305600000 True
        \<and> LocalTZA (fixed_zone (- 480)) 1705305600000 True < 57600000"
    by (simp add: fixed_zone_def msPerMinute_def)
  with C2_formatDate_written_date_when_same_local_day
         [OF parse(1) bounds(1) day(1) range_fixed [of "- 480"]]
  have "formatDate (fixed_zone (- 480)) (ascii ''2024-01-15T08:00:00Z'') = ascii ''2024.01.15''"
    by simp
  moreover
  from C2_formatDate_written_date_when_same_local_day
         [OF parse(2) bounds(2) day(2) range_summer(1)]
  have "formatDate summer_time_zone (ascii ''2024-07-01T23:30:00'') = date_text 2024 7 1"
    by (simp add: ft wt tza)
  moreover
  from C2_formatDate_written_date_when_same_local_day
         [OF parse(3) bounds(3) day(3) range_summer(2)]
  have "formatDate summer_time_zone (ascii ''2024-07-01'') = date_text 2024 7 1"
    by (simp add: wt tza msPerDay_def)
  moreover
  have "ascii ''2024-07-01'' = ascii ''2024'' @ 0x2D # ascii ''07'' @ 0x2D # ascii ''01'' @ []"
    "length (ascii ''2024'') = 4" "length (ascii ''07'') = 2" "length (ascii ''01'') = 2"
    by (simp_all add: ascii_def)
  with C2_formatDate_written_date_when_same_local_day
         [OF parse(3) bounds(3) day(3) range_summer(2),
           where y = "ascii ''2024''" and m = "ascii ''07''" and d = "ascii ''01''" and rest = "[]"]
  have written: "date_text 2024 7 1 = ascii ''2024'' @ [0x2E] @ ascii ''07'' @ [0x2E] @ ascii ''01''"
    by simp
  moreover have "ascii ''2024'' @ [0x2E] @ ascii ''07'' @ [0x2E] @ ascii ''01'' = ascii ''2024.07.01''"
    by (simp add: ascii_def)
  ultimately show ?thesis using shift by simp
qed

text \<open>
  Where the claim fails. In a runtime nine hours ahead of UTC, the input
  \<open>2024-01-15T20:00:00Z\<close> gives the 16th. In a runtime on UTC, the input
  \<open>2024-01-15T23:30:00-05:00\<close> gives the 16th. In a runtime five hours behind UTC, the
  input \<open>2024-01-15\<close> gives the 14th. The year is not padded: in a runtime on UTC the
  input \<open>0999-06-05\<close> gives \<open>999.06.05\<close>.
\<close>

theorem C2_formatDate_shows_local_date_of_instant:
  "formatDate (fixed_zone 540) (ascii ''2024-01-15T20:00:00Z'') = ascii ''2024.01.16''
   \<and> formatDate (fixed_zone 0) (ascii ''2024-01-15T23:30:00-05:00'') = ascii ''2024.01.16''
   \<and> formatDate (fixed_zone (- 300)) (ascii ''2024-01-15'') = ascii ''2024.01.14''
   \<and> formatDate (fixed_zone 0) (ascii ''0999-06-05'') = ascii ''999.06.05''"
  by code_simp

section \<open>Counts of the home page\<close>

lemma promise_catch_fulfilled:
  "promise_catch p (\<lambda>error c. (d, c @ [(msg, error)])) console =
     (Fulfilled (case p of Fulfilled v \<Rightarrow> v | Rejected e \<Rightarrow> d),
      console @ (case p of Fulfilled v \<Rightarrow> [] | Rejected e \<Rightarrow> [(msg, e)]))"
  by (cases p) (simp_all add: promise_catch_def)

text \<open>
  C7. However the two count fetches settle, and whichever settles first, \<open>Home\<close> returns
  the page, never a failure. A count whose fetch failed is 0, the other is the fetched
  count. The console gets one line for every failed fetch and nothing else.
\<close>

theorem C7_home_counts_default_to_zero:
  "fst (Home order getNewsCount getSubscriberCount console)
     = Inr (HomePage (case getNewsCount of Fulfilled n \<Rightarrow> n | Rejected e \<Rightarrow> 0)
              (case getSubscriberCount of Fulfilled n \<Rightarrow> n | Rejected e \<Rightarrow> 0))
   \<and> fst (Home order (Rejected e1) (Rejected e2) console) = Inr (HomePage 0 0)
   \<and> fst (Home order (Rejected e1) (Fulfilled k) console) = Inr (HomePage 0 k)
   \<and> fst (Home order (Fulfilled k) (Rejected e2) console) = Inr (HomePage k 0)
   \<and> (\<exists>out. snd (Home order getNewsCount getSubscriberCount console) = console @ out
         \<and> set out =
             (case getNewsCount of
                Fulfilled n \<Rightarrow> {} | Rejected e \<Rightarrow> {(''Failed to fetch news count:'', e)})
             \<union> (case getSubscriberCount of
                  Fulfilled n \<Rightarrow> {} | Rejected e \<Rightarrow> {(''Failed to fetch subscriber count:'', e)}))"
proof -
  have page: "fst (Home order p q console)
     = Inr (HomePage (case p of Fulfilled n \<Rightarrow> n | Rejected e \<Rightarrow> 0)
              (case q of Fulfilled n \<Rightarrow> n | Rejected e \<Rightarrow> 0))" for p q :: "('a, int) promise"
    by (cases order)
       (simp_all add: Home_def Let_def promise_catch_fulfilled Promise_all_def)
  have log: "\<exists>out. snd (Home order getNewsCount getSubscriberCount console) = console @ out
         \<and> set out =
             (case getNewsCount of
                Fulfilled n \<Rightarrow> {} | Rejected e \<Rightarrow> {(''Failed to fetch news count:'', e)})
             \<union> (case getSubscriberCount of
                  Fulfilled n \<Rightarrow> {} | Rejected e \<Rightarrow> {(''Failed to fetch subscriber count:'', e)})"
    by (cases order; cases getNewsCount; cases getSubscriberCount)
       (auto simp add: Home_def Let_def promise_catch_fulfilled Promise_all_def)
  show ?thesis
    using page [of getNewsCount getSubscriberCount] page [of "Rejected e1" "Rejected e2"]
      page [of "Rejected e1" "Fulfilled k"] page [of "Fulfilled k" "Rejected e2"] log
    by simp
qed

end
